theory Spec2Isabelle
  imports Main "HOL-Library.Char_ord" "HOL-Library.List_Lexorder"
begin

section \<open>Progress store (metadata.py, class MetadataManager)\<close>

text \<open>
  One row of the table \<^verbatim>\<open>scrape_metadata\<close>. The columns are those of
  \<^verbatim>\<open>CREATE_TABLE_SQL\<close>; the two nullable text columns are options, the
  integer columns are always written by the code and are plain integers (Python's
  unbounded \<^verbatim>\<open>int\<close>).
\<close>

record metadata_row =
  row_id :: int
  wordpress_url :: string
  last_scrape_date :: string
  latest_post_modified :: "string option"
  total_posts_scraped :: int
  last_page_scraped :: int
  next_page_to_fetch :: int
  search_query :: "string option"
  scrape_status :: string

type_synonym metadata_table = "metadata_row list"

text \<open>
  \<^verbatim>\<open>id INTEGER PRIMARY KEY AUTOINCREMENT\<close>: a new row gets an id one above the
  largest id in use (no statement of the program deletes a row, so the largest id ever
  used is the largest id present); the first row gets 1.
\<close>

definition fresh_id :: "metadata_table \<Rightarrow> int" where
  "fresh_id tbl = fold max (map row_id tbl) 0 + 1"

text \<open>
  \<^verbatim>\<open>SELECT ... WHERE wordpress_url = ? ORDER BY id DESC LIMIT 1\<close>: among the rows
  of the URL, the one with the greatest id.
\<close>

definition newer :: "metadata_row \<Rightarrow> metadata_row \<Rightarrow> metadata_row" where
  "newer x best = (if row_id best < row_id x then x else best)"

definition get_latest_metadata :: "metadata_table \<Rightarrow> string \<Rightarrow> metadata_row option" where
  "get_latest_metadata tbl url =
     (case filter (\<lambda>r. wordpress_url r = url) tbl of
        [] \<Rightarrow> None
      | r # rs \<Rightarrow> Some (fold newer rs r))"

definition get_latest_modified_date :: "metadata_table \<Rightarrow> string \<Rightarrow> string option" where
  "get_latest_modified_date tbl url =
     (case get_latest_metadata tbl url of
        Some m \<Rightarrow> latest_post_modified m
      | None \<Rightarrow> None)"

definition get_last_page_scraped :: "metadata_table \<Rightarrow> string \<Rightarrow> int option" where
  "get_last_page_scraped tbl url =
     (case get_latest_metadata tbl url of
        Some m \<Rightarrow> Some (last_page_scraped m)
      | None \<Rightarrow> None)"

definition get_next_page_to_fetch :: "metadata_table \<Rightarrow> string \<Rightarrow> int option" where
  "get_next_page_to_fetch tbl url =
     (case get_latest_metadata tbl url of
        Some m \<Rightarrow> Some (next_page_to_fetch m)
      | None \<Rightarrow> None)"

definition get_search_query :: "metadata_table \<Rightarrow> string \<Rightarrow> string option" where
  "get_search_query tbl url =
     (case get_latest_metadata tbl url of
        Some m \<Rightarrow> search_query m
      | None \<Rightarrow> None)"

text \<open>
  \<^verbatim>\<open>update_progress(wordpress_url, page, posts_count)\<close>. The first argument is the
  value of \<^verbatim>\<open>datetime.utcnow().isoformat()\<close> at the call. The \<^verbatim>\<open>UPDATE\<close>
  rewrites the row(s) \<^verbatim>\<open>WHERE id = ?\<close> and leaves \<^verbatim>\<open>latest_post_modified\<close>
  and \<^verbatim>\<open>search_query\<close> alone; the \<^verbatim>\<open>INSERT\<close> names six columns, so the
  two others are NULL. This is what the statements do to the table once their values are
  bound; \<^verbatim>\<open>update_progress_sqlite3\<close> below is the call, which raises instead when
  an integer is outside what SQLite stores.
\<close>

definition update_progress ::
  "string \<Rightarrow> metadata_table \<Rightarrow> string \<Rightarrow> int \<Rightarrow> int \<Rightarrow> metadata_table" where
  "update_progress now tbl url page posts_count =
     (let next_page = page + 1 in
      case get_latest_metadata tbl url of
        Some result \<Rightarrow>
          map (\<lambda>x. if row_id x = row_id result
                    then x\<lparr>last_scrape_date := now,
                           total_posts_scraped := posts_count,
                           last_page_scraped := page,
                           next_page_to_fetch := next_page,
                           scrape_status := ''in_progress''\<rparr>
                    else x) tbl
      | None \<Rightarrow>
          tbl @ [\<lparr>row_id = fresh_id tbl,
                   wordpress_url = url,
                   last_scrape_date = now,
                   latest_post_modified = None,
                   total_posts_scraped = posts_count,
                   last_page_scraped = page,
                   next_page_to_fetch = next_page,
                   search_query = None,
                   scrape_status = ''in_progress''\<rparr>])"

text \<open>
  \<^verbatim>\<open>save_scrape_metadata(wordpress_url, latest_post_modified, total_posts, last_page,
  next_page, search_query, status)\<close>. When \<^verbatim>\<open>next_page\<close> is \<^verbatim>\<open>None\<close> it is
  computed: \<^verbatim>\<open>last_page + 1 if last_page > 0 else 1\<close>. Again what the statements do
  once their values are bound; \<^verbatim>\<open>save_scrape_metadata_sqlite3\<close> below is the call.
\<close>

definition save_scrape_metadata ::
  "string \<Rightarrow> metadata_table \<Rightarrow> string \<Rightarrow> string option \<Rightarrow> int \<Rightarrow> int \<Rightarrow> int option
     \<Rightarrow> string option \<Rightarrow> string \<Rightarrow> metadata_table" where
  "save_scrape_metadata now tbl url latest_modified total_posts last_page next_page_arg
       search status =
     (let next_page = (case next_page_arg of
                         None \<Rightarrow> (if last_page > 0 then last_page + 1 else 1)
                       | Some n \<Rightarrow> n) in
      case get_latest_metadata tbl url of
        Some result \<Rightarrow>
          map (\<lambda>x. if row_id x = row_id result
                    then x\<lparr>last_scrape_date := now,
                           latest_post_modified := latest_modified,
                           total_posts_scraped := total_posts,
                           last_page_scraped := last_page,
                           next_page_to_fetch := next_page,
                           search_query := search,
                           scrape_status := status\<rparr>
                    else x) tbl
      | None \<Rightarrow>
          tbl @ [\<lparr>row_id = fresh_id tbl,
                   wordpress_url = url,
                   last_scrape_date = now,
                   latest_post_modified = latest_modified,
                   total_posts_scraped = total_posts,
                   last_page_scraped = last_page,
                   next_page_to_fetch = next_page,
                   search_query = search,
                   scrape_status = status\<rparr>])"




section \<open>Entity store (database.py, class DatabaseManager)\<close>

text \<open>
  A processed post, as \<^verbatim>\<open>insert_posts_batch\<close> reads it: the 27 columns of the
  table \<^verbatim>\<open>posts\<close>, each \<^verbatim>\<open>post.get(column)\<close> (\<^verbatim>\<open>None\<close> when the
  key is missing). Text columns are optional strings, integer columns optional integers.
  The keys \<^verbatim>\<open>meta_source\<close> and \<^verbatim>\<open>meta_author\<close> of the processed
  dictionary are never stored and are left out.
\<close>

record post =
  p_id :: "int option"
  p_date :: "string option"
  p_date_gmt :: "string option"
  p_guid :: "string option"
  p_modified :: "string option"
  p_modified_gmt :: "string option"
  p_slug :: "string option"
  p_status :: "string option"
  p_type :: "string option"
  p_link :: "string option"
  p_title :: "string option"
  p_content :: "string option"
  p_excerpt :: "string option"
  p_author :: "int option"
  p_featured_media :: "int option"
  p_comment_status :: "string option"
  p_ping_status :: "string option"
  p_sticky :: "int option"
  p_template :: "string option"
  p_format :: "string option"
  p_meta :: "string option"
  p_categories :: "string option"
  p_tags :: "string option"
  p_area :: "string option"
  p_alerts :: "string option"
  p_countries :: "string option"
  p_class_list :: "string option"

text \<open>
  The table is the list of its rows; a stored row always has an id.
  \<^verbatim>\<open>id INTEGER PRIMARY KEY\<close> with a NULL id: SQLite assigns one more than the
  largest id in the table, and 1 in an empty table. That holds while the largest id is
  below \<open>2^63 - 1\<close>; at that value SQLite picks an unused id at random, which
  \<^verbatim>\<open>insert_post_sqlite3\<close> below leaves undetermined.
\<close>

type_synonym posts_table = "post list"

definition stored_id :: "post \<Rightarrow> int" where
  "stored_id r = (case p_id r of Some i \<Rightarrow> i | None \<Rightarrow> 0)"

definition next_rowid :: "posts_table \<Rightarrow> int" where
  "next_rowid tbl =
     (case map stored_id tbl of
        [] \<Rightarrow> 1
      | i # rest \<Rightarrow> fold max rest i + 1)"

text \<open>
  \<^verbatim>\<open>INSERT OR REPLACE INTO posts (...) VALUES (...)\<close>: a row with the same id is
  removed and the new row is added; nothing else is touched. This is what the statement
  does once its values are bound; \<^verbatim>\<open>insert_post_sqlite3\<close> below is the call.
\<close>

definition insert_post :: "posts_table \<Rightarrow> post \<Rightarrow> posts_table" where
  "insert_post tbl post_data =
     (case p_id post_data of
        Some i \<Rightarrow> filter (\<lambda>r. p_id r \<noteq> Some i) tbl @ [post_data]
      | None \<Rightarrow> tbl @ [post_data\<lparr>p_id := Some (next_rowid tbl)\<rparr>])"

text \<open>
  \<^verbatim>\<open>executemany(INSERT_POST_SQL, data_tuples)\<close>: the rows in order, one transaction,
  when every row can be bound; \<^verbatim>\<open>insert_posts_batch_sqlite3\<close> below is the call,
  with the rollback of the whole batch when one row cannot.
\<close>

definition insert_posts_batch :: "posts_table \<Rightarrow> post list \<Rightarrow> posts_table" where
  "insert_posts_batch tbl posts_data = fold (\<lambda>p t. insert_post t p) posts_data tbl"

definition get_post_count :: "posts_table \<Rightarrow> nat" where
  "get_post_count tbl = length tbl"

definition post_exists :: "posts_table \<Rightarrow> int \<Rightarrow> bool" where
  "post_exists tbl i = list_ex (\<lambda>r. p_id r = Some i) tbl"

section \<open>Page fetcher (api_client.py, class WordPressClient)\<close>

text \<open>
  What \<^verbatim>\<open>session.get\<close> hands back to the client, after the adapter's retries:
  a response with its status code and body, a \<^verbatim>\<open>RequestException\<close> (connection
  failure, timeout, or the \<^verbatim>\<open>RetryError\<close> of a request whose retries on
  429/500/502/503/504 are used up), or the operator's interrupt arriving during the
  blocking call. The body either parses as a JSON list of raw records or does not parse.
  Raw records are of any type \<open>'r\<close>.
\<close>

datatype 'r body = JsonBody "'r list" | InvalidJson

datatype 'r transport_result =
    Response nat "'r body"
  | RequestException
  | Interrupt

datatype exn = WordPressAPIError | KeyboardInterrupt

text \<open>
  The query parameters of a request. \<^verbatim>\<open>validate_endpoint\<close> and
  \<^verbatim>\<open>get_total_posts_count\<close> send \<^verbatim>\<open>per_page\<close> only; \<^verbatim>\<open>fetch_page\<close>
  sends \<^verbatim>\<open>per_page\<close> and \<^verbatim>\<open>page\<close> and whatever
  \<^verbatim>\<open>additional_params\<close> holds.
\<close>

record query =
  q_per_page :: int
  q_page :: "int option"
  q_search :: "string option"
  q_modified_after :: "string option"

record additional_params =
  ap_search :: "string option"
  ap_modified_after :: "string option"

text \<open>
  The remote endpoint: a function of the query, so within one run a repeated query gets
  the same answer.
\<close>

type_synonym 'r remote = "query \<Rightarrow> 'r transport_result"

record client =
  per_page :: int

text \<open>\<^verbatim>\<open>self.per_page = min(per_page, 100)\<close>.\<close>

definition WordPressClient :: "int \<Rightarrow> client" where
  "WordPressClient n = \<lparr>per_page = min n 100\<rparr>"

text \<open>\<^verbatim>\<open>response.raise_for_status()\<close> raises \<^verbatim>\<open>HTTPError\<close> for 400..599.\<close>

definition raises_for_status :: "nat \<Rightarrow> bool" where
  "raises_for_status status = (400 \<le> status \<and> status < 600)"

definition probe_query :: query where
  "probe_query = \<lparr>q_per_page = 1, q_page = None, q_search = None, q_modified_after = None\<rparr>"

definition validate_endpoint :: "'r remote \<Rightarrow> exn + bool" where
  "validate_endpoint remote =
     (case remote probe_query of
        Response status b \<Rightarrow> Inr (\<not> raises_for_status status)
      | RequestException \<Rightarrow> Inr False
      | Interrupt \<Rightarrow> Inl KeyboardInterrupt)"

text \<open>
  \<^verbatim>\<open>get_total_posts_count\<close>: its value is only logged; every \<^verbatim>\<open>Exception\<close> is
  swallowed, an interrupt is not.
\<close>

definition get_total_posts_count :: "'r remote \<Rightarrow> exn + unit" where
  "get_total_posts_count remote =
     (case remote probe_query of
        Interrupt \<Rightarrow> Inl KeyboardInterrupt
      | _ \<Rightarrow> Inr ())"

definition page_query :: "client \<Rightarrow> int \<Rightarrow> additional_params \<Rightarrow> query" where
  "page_query c page ap =
     \<lparr>q_per_page = per_page c, q_page = Some page,
      q_search = ap_search ap, q_modified_after = ap_modified_after ap\<rparr>"

text \<open>
  The \<^verbatim>\<open>try\<close>/\<^verbatim>\<open>except\<close> of \<^verbatim>\<open>fetch_page\<close>: an \<^verbatim>\<open>HTTPError\<close>
  with status 400 is the end of the data, every other \<^verbatim>\<open>HTTPError\<close>, every other
  \<^verbatim>\<open>RequestException\<close> and a body that is not JSON become
  \<^verbatim>\<open>WordPressAPIError\<close>.
\<close>

definition classify_response :: "'r transport_result \<Rightarrow> exn + 'r list" where
  "classify_response res =
     (case res of
        Response status b \<Rightarrow>
          if raises_for_status status
          then (if status = 400 then Inr [] else Inl WordPressAPIError)
          else (case b of JsonBody posts \<Rightarrow> Inr posts | InvalidJson \<Rightarrow> Inl WordPressAPIError)
      | RequestException \<Rightarrow> Inl WordPressAPIError
      | Interrupt \<Rightarrow> Inl KeyboardInterrupt)"

definition fetch_page :: "client \<Rightarrow> 'r remote \<Rightarrow> int \<Rightarrow> additional_params \<Rightarrow> exn + 'r list" where
  "fetch_page c remote page ap = classify_response (remote (page_query c page ap))"

section \<open>Ingestion orchestrator (cli.py, run_scraper and main)\<close>

text \<open>
  What a run does to the outside, in order: requests to the remote, the creation of the
  two tables, and the three kinds of write. Logging, the delay between pages
  (\<^verbatim>\<open>time.sleep\<close>), the exports and failures of SQLite itself are not modelled.
\<close>

datatype event =
    NetRequest query
  | MetaCreateTable
  | DbCreateTable
  | WriteProgress int int
  | InsertBatch nat
  | WriteFinal string

fun is_checkpoint :: "event \<Rightarrow> bool" where
  "is_checkpoint (WriteProgress page n) = True"
| "is_checkpoint e = False"

fun is_store :: "event \<Rightarrow> bool" where
  "is_store (InsertBatch n) = True"
| "is_store e = False"

fun is_final :: "event \<Rightarrow> bool" where
  "is_final (WriteFinal status) = True"
| "is_final e = False"

fun is_page_request :: "event \<Rightarrow> bool" where
  "is_page_request (NetRequest q) = (q_page q \<noteq> None)"
| "is_page_request e = False"

text \<open>
  The variables of \<^verbatim>\<open>run_scraper\<close> that change during a run, the two tables, and
  the events so far.
\<close>

record 'r scrape_state =
  meta :: metadata_table
  posts_db :: posts_table
  all_posts_raw :: "'r list"
  current_page :: int
  last_page_completed :: int
  trace :: "event list"

record config =
  cfg_wordpress_url :: string
  cfg_per_page :: int
  cfg_max_pages :: "int option"
  cfg_start_page :: int
  cfg_search :: "string option"

text \<open>Python's truth value of an optional string and of an optional integer.\<close>

definition truthy :: "string option \<Rightarrow> bool" where
  "truthy v = (case v of None \<Rightarrow> False | Some s \<Rightarrow> s \<noteq> [])"

definition truthy_int :: "int option \<Rightarrow> bool" where
  "truthy_int v = (case v of None \<Rightarrow> False | Some n \<Rightarrow> n \<noteq> 0)"

text \<open>
  \<^verbatim>\<open>fetch_all(start_page, max_pages, additional_params)\<close>, a generator, together
  with the body of the \<^verbatim>\<open>for\<close> loop that consumes it: the body runs at each
  \<^verbatim>\<open>yield\<close>. The loop has no bound of its own, so the model counts iterations
  down from \<open>fuel\<close> and is \<open>None\<close> when they run out. The result is the exception
  that left the loop, if any, and the state reached.
\<close>

fun fetch_all ::
  "nat \<Rightarrow> client \<Rightarrow> 'r remote \<Rightarrow> int option \<Rightarrow> additional_params
     \<Rightarrow> ('r list \<Rightarrow> 'r scrape_state \<Rightarrow> 'r scrape_state)
     \<Rightarrow> int \<Rightarrow> int \<Rightarrow> 'r scrape_state \<Rightarrow> (exn option \<times> 'r scrape_state) option" where
  "fetch_all 0 c remote max_pages ap body page pages_fetched s = None"
| "fetch_all (Suc fuel) c remote max_pages ap body page pages_fetched s =
     (if (case max_pages of None \<Rightarrow> False | Some m \<Rightarrow> m \<noteq> 0 \<and> pages_fetched \<ge> m)
      then Some (None, s)
      else
        (let s1 = s\<lparr>trace := trace s @ [NetRequest (page_query c page ap)]\<rparr> in
         case fetch_page c remote page ap of
           Inl e \<Rightarrow> Some (Some e, s1)
         | Inr posts \<Rightarrow>
             if posts = [] then Some (None, s1)
             else fetch_all fuel c remote max_pages ap body (page + 1) (pages_fetched + 1)
                    (body posts s1)))"

text \<open>
  The body of the loop of \<^verbatim>\<open>run_scraper\<close>: extend \<^verbatim>\<open>all_posts_raw\<close>, write
  the progress of the page, advance. The clock gives the time of a write from the number
  of events before it. The checkpoint is written as the statements of
  \<^verbatim>\<open>update_progress\<close> write it; the theorems about the checkpoints of a run are
  stated for page numbers within what SQLite stores, where the call does not raise.
\<close>

definition page_body ::
  "(nat \<Rightarrow> string) \<Rightarrow> string \<Rightarrow> 'r list \<Rightarrow> 'r scrape_state \<Rightarrow> 'r scrape_state" where
  "page_body clock url page_posts s =
     (let raw = all_posts_raw s @ page_posts in
      s\<lparr>all_posts_raw := raw,
        meta := update_progress (clock (length (trace s))) (meta s) url (current_page s)
                  (int (length raw)),
        trace := trace s @ [WriteProgress (current_page s) (int (length raw))],
        last_page_completed := current_page s,
        current_page := current_page s + 1\<rparr>)"

text \<open>The body of the loop of \<^verbatim>\<open>fetch_modified_since\<close>: collect.\<close>

definition collect_body :: "'r list \<Rightarrow> 'r scrape_state \<Rightarrow> 'r scrape_state" where
  "collect_body page_posts s = s\<lparr>all_posts_raw := all_posts_raw s @ page_posts\<rparr>"

text \<open>
  \<^verbatim>\<open>additional_params = {'modified_after': modified_after}\<close>, with
  \<^verbatim>\<open>'search'\<close> added when the search phrase is not empty.
\<close>

definition since_params :: "string \<Rightarrow> string option \<Rightarrow> additional_params" where
  "since_params modified_after search =
     \<lparr>ap_search = (if truthy search then search else None),
      ap_modified_after = Some modified_after\<rparr>"

definition fetch_modified_since ::
  "nat \<Rightarrow> client \<Rightarrow> 'r remote \<Rightarrow> string \<Rightarrow> string option \<Rightarrow> 'r scrape_state
     \<Rightarrow> (exn option \<times> 'r scrape_state) option" where
  "fetch_modified_since fuel c remote modified_after search s =
     fetch_all fuel c remote None (since_params modified_after search)
       collect_body 1 0 (s\<lparr>all_posts_raw := []\<rparr>)"

text \<open>
  The check of the stored search query against the requested one, the same in the resume
  block and in the update block: the run is refused when the two differ and one of the
  three \<^verbatim>\<open>if\<close>/\<^verbatim>\<open>elif\<close> conditions holds.
\<close>

definition search_conflict :: "string option \<Rightarrow> string option \<Rightarrow> bool" where
  "search_conflict stored_search requested =
     (stored_search \<noteq> requested \<and>
      ((truthy stored_search \<and> \<not> truthy requested)
       \<or> (\<not> truthy stored_search \<and> truthy requested)
       \<or> (truthy stored_search \<and> truthy requested)))"

text \<open>
  The block \<^verbatim>\<open>if resume:\<close>. \<open>None\<close> is \<^verbatim>\<open>return False\<close>; otherwise the
  configuration, with \<^verbatim>\<open>start_page\<close> set to the stored next page when both stored
  page numbers are non-zero.
\<close>

definition resume_block :: "config \<Rightarrow> bool \<Rightarrow> metadata_table \<Rightarrow> config option" where
  "resume_block cfg resume tbl =
     (if \<not> resume then Some cfg
      else
        (let next_page = get_next_page_to_fetch tbl (cfg_wordpress_url cfg);
             last_page = get_last_page_scraped tbl (cfg_wordpress_url cfg);
             stored_search = get_search_query tbl (cfg_wordpress_url cfg) in
         if search_conflict stored_search (cfg_search cfg) then None
         else if truthy_int next_page \<and> truthy_int last_page
         then (case next_page of Some n \<Rightarrow> Some (cfg\<lparr>cfg_start_page := n\<rparr>) | None \<Rightarrow> Some cfg)
         else Some cfg))"

text \<open>
  The block \<^verbatim>\<open>if update:\<close>, up to the fetch: refuse, fall back to the standard
  scrape (\<^verbatim>\<open>update = False\<close>), or fetch what was modified after the stored date.
\<close>

datatype update_decision = UpdateRefused | NoUpdate | UpdateSince string

definition update_block :: "config \<Rightarrow> bool \<Rightarrow> metadata_table \<Rightarrow> update_decision" where
  "update_block cfg update tbl =
     (if \<not> update then NoUpdate
      else
        (let latest_modified = get_latest_modified_date tbl (cfg_wordpress_url cfg);
             stored_search = get_search_query tbl (cfg_wordpress_url cfg) in
         if search_conflict stored_search (cfg_search cfg) then UpdateRefused
         else (case latest_modified of
                 None \<Rightarrow> NoUpdate
               | Some t \<Rightarrow> if t = [] then NoUpdate else UpdateSince t)))"

text \<open>
  \<^verbatim>\<open>latest_modified_gmt\<close>: the greatest non-empty \<^verbatim>\<open>modified_gmt\<close> among the
  processed posts, by Python's string order.
\<close>

definition track_latest :: "post \<Rightarrow> string option \<Rightarrow> string option" where
  "track_latest processed latest =
     (case p_modified_gmt processed of
        None \<Rightarrow> latest
      | Some m \<Rightarrow>
          if m = [] then latest
          else (case latest of
                  None \<Rightarrow> Some m
                | Some l \<Rightarrow> if l = [] \<or> m > l then Some m else latest))"

text \<open>
  From \<^verbatim>\<open># Process all posts\<close> to \<^verbatim>\<open>return True\<close>: normalise, store the batch
  when it is not empty, write the final metadata with status \<^verbatim>\<open>complete\<close>. The
  normaliser \<^verbatim>\<open>extract_post_fields\<close> is a parameter. The exports read the lists
  and write files of their own; they are not modelled. The two writes are what their
  statements do once the values are bound. A record with an integer that SQLite cannot
  store makes the code raise at the insert instead: the batch is rolled back, no final
  write follows, and the run returns \<^verbatim>\<open>False\<close>.
\<close>

datatype run_result = Returned bool | Propagated exn

definition process_and_store ::
  "(nat \<Rightarrow> string) \<Rightarrow> ('r \<Rightarrow> post) \<Rightarrow> config \<Rightarrow> 'r scrape_state
     \<Rightarrow> run_result \<times> 'r scrape_state" where
  "process_and_store clock extract_post_fields cfg s =
     (let processed_posts = map extract_post_fields (all_posts_raw s);
          latest_modified_gmt = fold track_latest processed_posts None;
          s1 = (if processed_posts \<noteq> []
                then s\<lparr>posts_db := insert_posts_batch (posts_db s) processed_posts,
                       trace := trace s @ [InsertBatch (length processed_posts)]\<rparr>
                else s);
          s2 = s1\<lparr>meta := save_scrape_metadata (clock (length (trace s1))) (meta s1)
                            (cfg_wordpress_url cfg) latest_modified_gmt
                            (int (length processed_posts)) (last_page_completed s1) None
                            (cfg_search cfg) ''complete'',
                  trace := trace s1 @ [WriteFinal ''complete'']\<rparr>
      in (Returned True, s2))"

text \<open>
  The handlers of \<^verbatim>\<open>run_scraper\<close>: \<^verbatim>\<open>WordPressAPIError\<close> is caught and the
  run returns \<^verbatim>\<open>False\<close>; \<^verbatim>\<open>KeyboardInterrupt\<close> is not an
  \<^verbatim>\<open>Exception\<close> and leaves \<^verbatim>\<open>run_scraper\<close>.
\<close>

fun handle_exn :: "exn \<Rightarrow> run_result" where
  "handle_exn WordPressAPIError = Returned False"
| "handle_exn KeyboardInterrupt = Propagated KeyboardInterrupt"

text \<open>
  The parameters of the standard scrape: \<^verbatim>\<open>additional_params['search']\<close> is set
  when the search phrase is not empty.
\<close>

definition search_params :: "string option \<Rightarrow> additional_params" where
  "search_params search =
     \<lparr>ap_search = (if truthy search then search else None), ap_modified_after = None\<rparr>"

text \<open>The branch \<^verbatim>\<open>if not update:\<close> and what follows it.\<close>

definition standard_scrape ::
  "nat \<Rightarrow> (nat \<Rightarrow> string) \<Rightarrow> ('r \<Rightarrow> post) \<Rightarrow> client \<Rightarrow> 'r remote \<Rightarrow> config
     \<Rightarrow> 'r scrape_state \<Rightarrow> (run_result \<times> 'r scrape_state) option" where
  "standard_scrape fuel clock extract_post_fields c remote cfg s =
     (let s1 = s\<lparr>trace := trace s @ [NetRequest probe_query]\<rparr> in
      case get_total_posts_count remote of
        Inl e \<Rightarrow> Some (handle_exn e, s1)
      | Inr u \<Rightarrow>
          (let s2 = s1\<lparr>current_page := cfg_start_page cfg\<rparr> in
           case fetch_all fuel c remote (cfg_max_pages cfg) (search_params (cfg_search cfg))
                  (page_body clock (cfg_wordpress_url cfg)) (cfg_start_page cfg) 0 s2 of
             None \<Rightarrow> None
           | Some (Some e, s3) \<Rightarrow> Some (handle_exn e, s3)
           | Some (None, s3) \<Rightarrow> Some (process_and_store clock extract_post_fields cfg s3)))"

text \<open>The branch of the update block that fetches, and what follows it.\<close>

definition update_scrape ::
  "nat \<Rightarrow> (nat \<Rightarrow> string) \<Rightarrow> ('r \<Rightarrow> post) \<Rightarrow> client \<Rightarrow> 'r remote \<Rightarrow> config \<Rightarrow> string
     \<Rightarrow> 'r scrape_state \<Rightarrow> (run_result \<times> 'r scrape_state) option" where
  "update_scrape fuel clock extract_post_fields c remote cfg latest_modified s =
     (case fetch_modified_since fuel c remote latest_modified (cfg_search cfg) s of
        None \<Rightarrow> None
      | Some (Some e, s1) \<Rightarrow> Some (handle_exn e, s1)
      | Some (None, s1) \<Rightarrow>
          if all_posts_raw s1 = [] then Some (Returned True, s1)
          else Some (process_and_store clock extract_post_fields cfg s1))"

text \<open>
  \<^verbatim>\<open>run_scraper(config, update, resume)\<close> on the two tables as they are before the
  run. The result is \<open>None\<close> when the fuel does not suffice, otherwise what the run
  returned (or the exception that left it) and the state reached.
\<close>

definition run_scraper ::
  "nat \<Rightarrow> (nat \<Rightarrow> string) \<Rightarrow> ('r \<Rightarrow> post) \<Rightarrow> 'r remote \<Rightarrow> config \<Rightarrow> bool \<Rightarrow> bool
     \<Rightarrow> metadata_table \<Rightarrow> posts_table \<Rightarrow> (run_result \<times> 'r scrape_state) option" where
  "run_scraper fuel clock extract_post_fields remote cfg update resume meta0 db0 =
     (let c = WordPressClient (cfg_per_page cfg);
          s0 = \<lparr>meta = meta0, posts_db = db0, all_posts_raw = [],
                current_page = cfg_start_page cfg, last_page_completed = 0,
                trace = [NetRequest probe_query]\<rparr> in
      case validate_endpoint remote of
        Inl e \<Rightarrow> Some (handle_exn e, s0)
      | Inr valid \<Rightarrow>
          if \<not> valid then Some (Returned False, s0)
          else
            (let s1 = s0\<lparr>trace := trace s0 @ [MetaCreateTable, DbCreateTable]\<rparr> in
             case resume_block cfg resume (meta s1) of
               None \<Rightarrow> Some (Returned False, s1)
             | Some cfg1 \<Rightarrow>
                 (case update_block cfg1 update (meta s1) of
                    UpdateRefused \<Rightarrow> Some (Returned False, s1)
                  | NoUpdate \<Rightarrow> standard_scrape fuel clock extract_post_fields c remote cfg1 s1
                  | UpdateSince t \<Rightarrow>
                      update_scrape fuel clock extract_post_fields c remote cfg1 t s1)))"


section \<open>Vocabulary for the properties of a run\<close>


text \<open>
  The page ceiling does not stop the loop when \<open>n\<close> pages have been fetched: the
  negation of \<^verbatim>\<open>max_pages and pages_fetched >= max_pages\<close>.
\<close>

definition within_limit :: "int option \<Rightarrow> int \<Rightarrow> bool" where
  "within_limit max_pages n = (case max_pages of None \<Rightarrow> True | Some m \<Rightarrow> m = 0 \<or> n < m)"

text \<open>An event that is not a page request, or is one with the given modified-after date.\<close>

fun since_only :: "string \<Rightarrow> event \<Rightarrow> bool" where
  "since_only t (NetRequest q) = (q_page q = None \<or> q_modified_after q = Some t)"
| "since_only t e = True"

text \<open>An event that is neither a batch insert nor a final write.\<close>

definition paging_event :: "event \<Rightarrow> bool" where
  "paging_event e = (\<not> is_store e \<and> \<not> is_final e)"

text \<open>A post with every column NULL, to build concrete posts from.\<close>

definition blank_post :: post where
  "blank_post =
     \<lparr>p_id = None, p_date = None, p_date_gmt = None, p_guid = None, p_modified = None,
      p_modified_gmt = None, p_slug = None, p_status = None, p_type = None, p_link = None,
      p_title = None, p_content = None, p_excerpt = None, p_author = None,
      p_featured_media = None, p_comment_status = None, p_ping_status = None,
      p_sticky = None, p_template = None, p_format = None, p_meta = None,
      p_categories = None, p_tags = None, p_area = None, p_alerts = None,
      p_countries = None, p_class_list = None\<rparr>"

section \<open>The writes as sqlite3 executes them\<close>

text \<open>
  SQLite stores an integer in at most 64 bits, signed. Python's \<^verbatim>\<open>sqlite3\<close> refuses to
  bind an \<^verbatim>\<open>int\<close> outside that range: \<^verbatim>\<open>execute\<close> raises
  \<^verbatim>\<open>OverflowError\<close> before the statement runs, so nothing is written.
\<close>

definition sqlite_int :: "int \<Rightarrow> bool" where
  "sqlite_int n = (- (2 ^ 63) \<le> n \<and> n < 2 ^ 63)"

definition sqlite_opt :: "int option \<Rightarrow> bool" where
  "sqlite_opt v = (case v of None \<Rightarrow> True | Some n \<Rightarrow> sqlite_int n)"

text \<open>
  What a write can end with instead of a table: the \<^verbatim>\<open>OverflowError\<close> of a value that
  cannot be bound, and, for a record without id when the largest id of the table is
  \<open>2^63 - 1\<close>, an id that SQLite picks at random among the unused ones (the model does
  not say which, and gives no table).
\<close>

datatype storage_error = OverflowError | RowidNotDetermined

text \<open>
  \<^verbatim>\<open>update_progress\<close> as called: the \<^verbatim>\<open>UPDATE\<close> and the \<^verbatim>\<open>INSERT\<close> both
  bind \<^verbatim>\<open>posts_count\<close>, \<^verbatim>\<open>page\<close> and \<^verbatim>\<open>next_page = page + 1\<close>.
\<close>

definition update_progress_sqlite3 ::
  "string \<Rightarrow> metadata_table \<Rightarrow> string \<Rightarrow> int \<Rightarrow> int \<Rightarrow> storage_error + metadata_table" where
  "update_progress_sqlite3 now tbl url page posts_count =
     (if sqlite_int posts_count \<and> sqlite_int page \<and> sqlite_int (page + 1)
      then Inr (update_progress now tbl url page posts_count)
      else Inl OverflowError)"

text \<open>
  \<^verbatim>\<open>save_scrape_metadata\<close> as called: both statements bind \<^verbatim>\<open>total_posts\<close>,
  \<^verbatim>\<open>last_page\<close> and \<^verbatim>\<open>next_page\<close> (given, or computed from \<^verbatim>\<open>last_page\<close>).
\<close>

definition save_scrape_metadata_sqlite3 ::
  "string \<Rightarrow> metadata_table \<Rightarrow> string \<Rightarrow> string option \<Rightarrow> int \<Rightarrow> int \<Rightarrow> int option
     \<Rightarrow> string option \<Rightarrow> string \<Rightarrow> storage_error + metadata_table" where
  "save_scrape_metadata_sqlite3 now tbl url latest_modified total_posts last_page next_page_arg
       search status =
     (let next_page = (case next_page_arg of
                         None \<Rightarrow> (if last_page > 0 then last_page + 1 else 1)
                       | Some n \<Rightarrow> n) in
      if sqlite_int total_posts \<and> sqlite_int last_page \<and> sqlite_int next_page
      then Inr (save_scrape_metadata now tbl url latest_modified total_posts last_page
                  next_page_arg search status)
      else Inl OverflowError)"






text \<open>
  A post whose integer columns (\<^verbatim>\<open>id\<close>, \<^verbatim>\<open>author\<close>, \<^verbatim>\<open>featured_media\<close>,
  \<^verbatim>\<open>sticky\<close>) can all be bound.
\<close>

definition storable :: "post \<Rightarrow> bool" where
  "storable p =
     (sqlite_opt (p_id p) \<and> sqlite_opt (p_author p) \<and> sqlite_opt (p_featured_media p)
      \<and> sqlite_opt (p_sticky p))"

text \<open>
  \<^verbatim>\<open>insert_post\<close> as called. A record without id gets the next id only while that is
  within range.
\<close>

definition insert_post_sqlite3 :: "posts_table \<Rightarrow> post \<Rightarrow> storage_error + posts_table" where
  "insert_post_sqlite3 tbl post_data =
     (if \<not> storable post_data then Inl OverflowError
      else if p_id post_data = None \<and> \<not> sqlite_int (next_rowid tbl) then Inl RowidNotDetermined
      else Inr (insert_post tbl post_data))"

text \<open>
  \<^verbatim>\<open>insert_posts_batch\<close> as called: \<^verbatim>\<open>executemany\<close> inside
  \<^verbatim>\<open>get_cursor\<close>. The rows are bound and written one after the other; the first one
  that raises ends the batch, and \<^verbatim>\<open>get_cursor\<close> rolls back what the batch had written
  before it commits anything: the result is the error alone, the table stays what it was.
\<close>

fun insert_posts_batch_sqlite3 :: "posts_table \<Rightarrow> post list \<Rightarrow> storage_error + posts_table" where
  "insert_posts_batch_sqlite3 tbl [] = Inr tbl"
| "insert_posts_batch_sqlite3 tbl (post_data # rest) =
     (case insert_post_sqlite3 tbl post_data of
        Inl e \<Rightarrow> Inl e
      | Inr t \<Rightarrow> insert_posts_batch_sqlite3 t rest)"


section \<open>Concrete inputs\<close>

text \<open>
  A configuration with the defaults of the command line, a normaliser that keeps the id
  of a raw record (raw records are numbers here), and a remote that has records on one
  page only and answers every other page request with a given outcome.
\<close>

definition example_cfg :: config where
  "example_cfg =
     \<lparr>cfg_wordpress_url = ''u'', cfg_per_page = 100, cfg_max_pages = None,
      cfg_start_page = 1, cfg_search = None\<rparr>"

definition example_extract :: "nat \<Rightarrow> post" where
  "example_extract n = blank_post\<lparr>p_id := Some (int n)\<rparr>"

definition serving :: "int \<Rightarrow> nat transport_result \<Rightarrow> nat remote" where
  "serving only_page otherwise q =
     (case q_page q of
        None \<Rightarrow> Response 200 (JsonBody [])
      | Some p \<Rightarrow> if p = only_page then Response 200 (JsonBody [7]) else otherwise)"

definition example_clock :: "nat \<Rightarrow> string" where
  "example_clock n = ''t''"

text \<open>
  A stored session of the source \<^verbatim>\<open>u\<close>, checkpointed through page 3, with a given
  status, watermark and search query; and the date used as a watermark.
\<close>

definition example_row :: "string \<Rightarrow> string option \<Rightarrow> string option \<Rightarrow> metadata_row" where
  "example_row status watermark search =
     \<lparr>row_id = 1, wordpress_url = ''u'', last_scrape_date = ''t0'',
      latest_post_modified = watermark, total_posts_scraped = 300,
      last_page_scraped = 3, next_page_to_fetch = 4,
      search_query = search, scrape_status = status\<rparr>"

definition example_date :: string where
  "example_date = ''2024-01-10T00:00:00''"

lemmas run_defs = run_scraper_def example_cfg_def serving_def example_clock_def
  example_extract_def example_row_def example_date_def
  validate_endpoint_def probe_query_def raises_for_status_def resume_block_def update_block_def
  standard_scrape_def update_scrape_def fetch_modified_since_def since_params_def
  search_params_def get_total_posts_count_def WordPressClient_def fetch_page_def page_query_def
  classify_response_def truthy_def truthy_int_def page_body_def collect_body_def
  process_and_store_def Let_def update_progress_def save_scrape_metadata_def
  get_latest_metadata_def fresh_id_def insert_posts_batch_def insert_post_def track_latest_def
  blank_post_def search_conflict_def get_search_query_def get_latest_modified_date_def
  get_next_page_to_fetch_def get_last_page_scraped_def newer_def within_limit_def

section \<open>Properties of the progress store\<close>

lemma fold_newer_map:
  assumes "\<And>x. row_id (f x) = row_id x"
  shows "fold newer (map f rs) (f r) = f (fold newer rs r)"
  using assms by (induction rs arbitrary: r) (simp_all add: newer_def)

lemma fold_newer_id_mem:
  "fold newer rs r \<in> set (r # rs)"
  by (induction rs arbitrary: r) (auto simp: newer_def)

lemma get_latest_metadata_map:
  assumes "\<And>x. row_id (f x) = row_id x" and "\<And>x. wordpress_url (f x) = wordpress_url x"
  shows "get_latest_metadata (map f tbl) url = map_option f (get_latest_metadata tbl url)"
proof -
  have "filter (\<lambda>r. wordpress_url r = url) (map f tbl)
          = map f (filter (\<lambda>r. wordpress_url r = url) tbl)"
    by (simp add: filter_map o_def assms(2))
  then show ?thesis
    by (simp add: get_latest_metadata_def fold_newer_map [OF assms(1)] split: list.splits)
qed

lemma get_latest_metadata_url:
  "get_latest_metadata tbl url = Some r \<Longrightarrow> wordpress_url r = url"
proof -
  assume h: "get_latest_metadata tbl url = Some r"
  then obtain a rs where f: "filter (\<lambda>r. wordpress_url r = url) tbl = a # rs"
    and r: "r = fold newer rs a"
    by (auto simp: get_latest_metadata_def split: list.splits)
  have "r \<in> set (a # rs)" using r fold_newer_id_mem by blast
  then have "r \<in> set (filter (\<lambda>r. wordpress_url r = url) tbl)" using f by simp
  then show ?thesis by simp
qed


lemma get_latest_metadata_append_new:
  assumes "get_latest_metadata tbl url = None" and "wordpress_url r = url"
  shows "get_latest_metadata (tbl @ [r]) url = Some r"
  using assms by (simp add: get_latest_metadata_def split: list.splits)

lemma update_progress_latest:
  "\<exists>r. get_latest_metadata (update_progress now tbl url page posts_count) url = Some r
       \<and> next_page_to_fetch r = page + 1
       \<and> last_page_scraped r = page
       \<and> total_posts_scraped r = posts_count
       \<and> scrape_status r = ''in_progress''"
proof (cases "get_latest_metadata tbl url")
  case None
  then show ?thesis
    by (simp add: update_progress_def get_latest_metadata_append_new)
next
  case (Some result)
  let ?f = "\<lambda>x. if row_id x = row_id result
                  then x\<lparr>last_scrape_date := now,
                         total_posts_scraped := posts_count,
                         last_page_scraped := page,
                         next_page_to_fetch := page + 1,
                         scrape_status := ''in_progress''\<rparr>
                  else x"
  have "get_latest_metadata (map ?f tbl) url = map_option ?f (get_latest_metadata tbl url)"
    by (rule get_latest_metadata_map) simp_all
  with Some show ?thesis
    by (simp add: update_progress_def)
qed

lemma save_scrape_metadata_latest:
  "\<exists>r. get_latest_metadata
          (save_scrape_metadata now tbl url latest_modified total_posts last_page next_page_arg
             search status) url = Some r
       \<and> next_page_to_fetch r =
           (case next_page_arg of
              None \<Rightarrow> (if last_page > 0 then last_page + 1 else 1)
            | Some n \<Rightarrow> n)
       \<and> last_page_scraped r = last_page
       \<and> total_posts_scraped r = total_posts
       \<and> latest_post_modified r = latest_modified
       \<and> search_query r = search
       \<and> scrape_status r = status"
proof (cases "get_latest_metadata tbl url")
  case None
  then show ?thesis
    by (simp add: save_scrape_metadata_def get_latest_metadata_append_new)
next
  case (Some result)
  let ?np = "case next_page_arg of
               None \<Rightarrow> (if last_page > 0 then last_page + 1 else 1)
             | Some n \<Rightarrow> n"
  let ?f = "\<lambda>x. if row_id x = row_id result
                  then x\<lparr>last_scrape_date := now,
                         latest_post_modified := latest_modified,
                         total_posts_scraped := total_posts,
                         last_page_scraped := last_page,
                         next_page_to_fetch := ?np,
                         search_query := search,
                         scrape_status := status\<rparr>
                  else x"
  have "get_latest_metadata (map ?f tbl) url = map_option ?f (get_latest_metadata tbl url)"
    by (rule get_latest_metadata_map) simp_all
  with Some show ?thesis
    by (simp add: save_scrape_metadata_def)
qed









text \<open>
  C2. After \<^verbatim>\<open>update_progress\<close> with page \<open>N\<close> and cumulative count \<open>C\<close>, both
  within what SQLite stores (as is \<open>N + 1\<close>), the write takes place and the
  authoritative (most recent) row of the source has \<open>next_page_to_fetch = N + 1\<close>,
  \<open>last_page_scraped = N\<close> and \<open>total_posts_scraped = C\<close>, whatever the table held
  before. After a finalize write (\<^verbatim>\<open>save_scrape_metadata\<close> called, as the
  orchestrator calls it, without a \<^verbatim>\<open>next_page\<close> argument) for a last page in
  the data model's range \<open>last_page \<ge> 0\<close>, with values within what SQLite stores, the
  authoritative row has \<open>next_page_to_fetch = last_page_scraped + 1\<close>. A checkpoint
  whose next page is beyond that range is not written: the call raises.
\<close>

theorem checkpoint_next_page_invariant:
  "(sqlite_int N \<and> sqlite_int (N + 1) \<and> sqlite_int C \<longrightarrow>
      (\<exists>tbl' r. update_progress_sqlite3 now tbl url N C = Inr tbl'
          \<and> get_latest_metadata tbl' url = Some r
          \<and> next_page_to_fetch r = N + 1
          \<and> last_page_scraped r = N
          \<and> total_posts_scraped r = C
          \<and> next_page_to_fetch r = last_page_scraped r + 1))
   \<and> (0 \<le> L \<and> sqlite_int L \<and> sqlite_int (L + 1) \<and> sqlite_int tp \<longrightarrow>
        (\<exists>tbl' r. save_scrape_metadata_sqlite3 now tbl url lm tp L None sq st = Inr tbl'
            \<and> get_latest_metadata tbl' url = Some r
            \<and> last_page_scraped r = L
            \<and> next_page_to_fetch r = last_page_scraped r + 1))
   \<and> (\<not> sqlite_int (M + 1) \<longrightarrow> update_progress_sqlite3 now tbl url M C = Inl OverflowError)"
proof (intro conjI impI)
  assume "sqlite_int N \<and> sqlite_int (N + 1) \<and> sqlite_int C"
  then have "update_progress_sqlite3 now tbl url N C = Inr (update_progress now tbl url N C)"
    by (simp add: update_progress_sqlite3_def)
  with update_progress_latest [of now tbl url N C]
  show "\<exists>tbl' r. update_progress_sqlite3 now tbl url N C = Inr tbl'
          \<and> get_latest_metadata tbl' url = Some r
          \<and> next_page_to_fetch r = N + 1
          \<and> last_page_scraped r = N
          \<and> total_posts_scraped r = C
          \<and> next_page_to_fetch r = last_page_scraped r + 1"
    by auto
next
  assume a: "0 \<le> L \<and> sqlite_int L \<and> sqlite_int (L + 1) \<and> sqlite_int tp"
  then have next_ok: "sqlite_int (if L > 0 then L + 1 else 1)"
    by (auto simp: sqlite_int_def)
  with a have "save_scrape_metadata_sqlite3 now tbl url lm tp L None sq st
                 = Inr (save_scrape_metadata now tbl url lm tp L None sq st)"
    by (simp add: save_scrape_metadata_sqlite3_def)
  with save_scrape_metadata_latest [of now tbl url lm tp L None sq st] a
  show "\<exists>tbl' r. save_scrape_metadata_sqlite3 now tbl url lm tp L None sq st = Inr tbl'
            \<and> get_latest_metadata tbl' url = Some r
            \<and> last_page_scraped r = L
            \<and> next_page_to_fetch r = last_page_scraped r + 1"
    by auto
next
  assume "\<not> sqlite_int (M + 1)"
  then show "update_progress_sqlite3 now tbl url M C = Inl OverflowError"
    by (simp add: update_progress_sqlite3_def)
qed

text \<open>
  The theorem of C2 at a session already checkpointed through page 2, and at the page
  number \<open>2^63 - 1\<close>, whose successor SQLite cannot store.
\<close>

theorem checkpoint_next_page_invariant_witness:
  "sqlite_int 3 \<and> sqlite_int (3 + 1) \<and> sqlite_int 42
   \<and> (\<exists>tbl' r. update_progress_sqlite3 ''t2'' (update_progress ''t1'' [] ''u'' 2 20) ''u'' 3 42
                  = Inr tbl'
        \<and> get_latest_metadata tbl' ''u'' = Some r
        \<and> next_page_to_fetch r = 4 \<and> last_page_scraped r = 3 \<and> total_posts_scraped r = 42)
   \<and> (0::int) \<le> 4 \<and> sqlite_int 4 \<and> sqlite_int (4 + 1)
   \<and> (\<exists>tbl' r. save_scrape_metadata_sqlite3 ''t2'' (update_progress ''t1'' [] ''u'' 2 20) ''u''
                  None 42 4 None None ''complete'' = Inr tbl'
        \<and> get_latest_metadata tbl' ''u'' = Some r
        \<and> last_page_scraped r = 4 \<and> next_page_to_fetch r = 5)
   \<and> \<not> sqlite_int (9223372036854775807 + 1)
   \<and> update_progress_sqlite3 ''t2'' (update_progress ''t1'' [] ''u'' 2 20) ''u''
        9223372036854775807 42 = Inl OverflowError"
proof -
  have r: "sqlite_int 3 \<and> sqlite_int (3 + 1) \<and> sqlite_int 42 \<and> sqlite_int 4 \<and> sqlite_int (4 + 1)
           \<and> \<not> sqlite_int (9223372036854775807 + 1)"
    by (simp add: sqlite_int_def)
  with checkpoint_next_page_invariant
    [where now="''t2''" and tbl="update_progress ''t1'' [] ''u'' 2 20" and url="''u''"
       and N=3 and C=42 and L=4 and lm=None and tp=42 and sq=None and st="''complete''"
       and M=9223372036854775807]
  show ?thesis by auto
qed



section \<open>Properties of the entity store and of the page fetcher\<close>

lemma insert_post_distinct:
  assumes "p_id p = Some i" and "distinct (map p_id tbl)"
  shows "distinct (map p_id (insert_post tbl p))"
  using assms by (auto simp: insert_post_def distinct_map_filter)

lemma insert_posts_batch_distinct:
  assumes "list_all (\<lambda>p. p_id p \<noteq> None) posts_data" and "distinct (map p_id tbl)"
  shows "distinct (map p_id (insert_posts_batch tbl posts_data))"
  using assms unfolding insert_posts_batch_def
proof (induction posts_data arbitrary: tbl)
  case Nil
  then show ?case by simp
next
  case (Cons p ps)
  from Cons.prems(1) obtain i where i: "p_id p = Some i" by auto
  have "distinct (map p_id (insert_post tbl p))"
    using i Cons.prems(2) by (rule insert_post_distinct)
  moreover have "list_all (\<lambda>p. p_id p \<noteq> None) ps" using Cons.prems(1) by simp
  ultimately show ?case using Cons.IH by simp
qed

lemma insert_post_sqlite3_with_id:
  assumes "p_id p = Some i" and "storable p"
  shows "insert_post_sqlite3 tbl p = Inr (insert_post tbl p)"
  using assms by (simp add: insert_post_sqlite3_def)

lemma insert_posts_batch_sqlite3_with_ids:
  assumes "list_all (\<lambda>p. p_id p \<noteq> None \<and> storable p) posts_data"
  shows "insert_posts_batch_sqlite3 tbl posts_data = Inr (insert_posts_batch tbl posts_data)"
  using assms
proof (induction posts_data arbitrary: tbl)
  case Nil
  then show ?case by (simp add: insert_posts_batch_def)
next
  case (Cons p ps)
  from Cons.prems obtain i where i: "p_id p = Some i" and s: "storable p" by auto
  have "insert_post_sqlite3 tbl p = Inr (insert_post tbl p)"
    using i s by (rule insert_post_sqlite3_with_id)
  moreover have "list_all (\<lambda>p. p_id p \<noteq> None \<and> storable p) ps" using Cons.prems by simp
  ultimately show ?case
    using Cons.IH [of "insert_post tbl p"] by (simp add: insert_posts_batch_def)
qed

lemma insert_posts_batch_sqlite3_unstorable:
  assumes "list_ex (\<lambda>p. \<not> storable p) posts_data"
  shows "\<exists>e. insert_posts_batch_sqlite3 tbl posts_data = Inl e"
  using assms
proof (induction posts_data arbitrary: tbl)
  case Nil
  then show ?case by simp
next
  case (Cons p ps)
  show ?case
  proof (cases "insert_post_sqlite3 tbl p")
    case (Inl e)
    then show ?thesis by simp
  next
    case (Inr t)
    then have "storable p" by (auto simp: insert_post_sqlite3_def split: if_splits)
    with Cons.prems have "list_ex (\<lambda>p. \<not> storable p) ps" by simp
    from Cons.IH [OF this, of t] Inr show ?thesis by simp
  qed
qed

text \<open>
  C5. Upserting a record and then another record with the same integer id, the integer
  columns of both within what SQLite stores, leaves exactly one row with that id, equal
  to the second record, and the second upsert does not change the number of rows; the
  same through \<^verbatim>\<open>insert_posts_batch\<close>, in two batches or in one. A batch of such
  records that all carry an id never makes two rows share an id. A batch with a record
  that SQLite cannot store raises, and nothing of the batch is stored.
\<close>

theorem upsert_same_identity:
  assumes "p_id first = Some i" and "p_id second = Some i"
    and "storable first" and "storable second"
  shows "(\<exists>t1 t2. insert_post_sqlite3 tbl first = Inr t1
            \<and> insert_post_sqlite3 t1 second = Inr t2
            \<and> filter (\<lambda>r. p_id r = Some i) t2 = [second]
            \<and> get_post_count t2 = get_post_count t1
            \<and> insert_posts_batch_sqlite3 tbl [first] = Inr t1
            \<and> insert_posts_batch_sqlite3 t1 [second] = Inr t2
            \<and> insert_posts_batch_sqlite3 tbl [first, second] = Inr t2)
       \<and> (list_all (\<lambda>p. p_id p \<noteq> None \<and> storable p) posts_data \<and> distinct (map p_id tbl)
            \<longrightarrow> (\<exists>t. insert_posts_batch_sqlite3 tbl posts_data = Inr t
                      \<and> distinct (map p_id t)))
       \<and> (list_ex (\<lambda>p. \<not> storable p) batch
            \<longrightarrow> (\<exists>e. insert_posts_batch_sqlite3 tbl batch = Inl e))"
proof -
  let ?t1 = "insert_post tbl first"
  let ?t2 = "insert_post ?t1 second"
  have s1: "insert_post_sqlite3 tbl first = Inr ?t1"
    using assms(1,3) by (rule insert_post_sqlite3_with_id)
  have s2: "insert_post_sqlite3 ?t1 second = Inr ?t2"
    using assms(2,4) by (rule insert_post_sqlite3_with_id)
  have one: "filter (\<lambda>r. p_id r = Some i) ?t2 = [second]"
    using assms(1,2) by (simp add: insert_post_def)
  have cnt: "get_post_count ?t2 = get_post_count ?t1"
    using assms(1,2) by (simp add: insert_post_def get_post_count_def)
  have b1: "insert_posts_batch_sqlite3 tbl [first] = Inr ?t1" using s1 by simp
  have b2: "insert_posts_batch_sqlite3 ?t1 [second] = Inr ?t2" using s2 by simp
  have b3: "insert_posts_batch_sqlite3 tbl [first, second] = Inr ?t2" using s1 s2 by simp
  have part1: "\<exists>t1 t2. insert_post_sqlite3 tbl first = Inr t1
            \<and> insert_post_sqlite3 t1 second = Inr t2
            \<and> filter (\<lambda>r. p_id r = Some i) t2 = [second]
            \<and> get_post_count t2 = get_post_count t1
            \<and> insert_posts_batch_sqlite3 tbl [first] = Inr t1
            \<and> insert_posts_batch_sqlite3 t1 [second] = Inr t2
            \<and> insert_posts_batch_sqlite3 tbl [first, second] = Inr t2"
    using s1 s2 one cnt b1 b2 b3 by blast
  have part2: "list_all (\<lambda>p. p_id p \<noteq> None \<and> storable p) posts_data \<and> distinct (map p_id tbl)
            \<longrightarrow> (\<exists>t. insert_posts_batch_sqlite3 tbl posts_data = Inr t
                      \<and> distinct (map p_id t))"
  proof
    assume h: "list_all (\<lambda>p. p_id p \<noteq> None \<and> storable p) posts_data \<and> distinct (map p_id tbl)"
    then have e: "insert_posts_batch_sqlite3 tbl posts_data
                    = Inr (insert_posts_batch tbl posts_data)"
      using insert_posts_batch_sqlite3_with_ids by blast
    from h have "list_all (\<lambda>p. p_id p \<noteq> None) posts_data"
      by (induction posts_data) auto
    with h have "distinct (map p_id (insert_posts_batch tbl posts_data))"
      using insert_posts_batch_distinct by blast
    with e show "\<exists>t. insert_posts_batch_sqlite3 tbl posts_data = Inr t \<and> distinct (map p_id t)"
      by blast
  qed
  have part3: "list_ex (\<lambda>p. \<not> storable p) batch
            \<longrightarrow> (\<exists>e. insert_posts_batch_sqlite3 tbl batch = Inl e)"
    using insert_posts_batch_sqlite3_unstorable by blast
  from part1 part2 part3 show ?thesis by blast
qed

text \<open>
  C6 (as amended). \<^verbatim>\<open>fetch_page\<close> returns the empty list for a response with status
  400, and only for that error status: every other status from 400 to 599 that reaches the
  client, a \<^verbatim>\<open>RequestException\<close> of the transport (which is what exhausted retries
  are) and a body that is not JSON raise \<^verbatim>\<open>WordPressAPIError\<close>; a successful
  response returns its records.
\<close>

theorem fetch_page_classification:
  "(rend (page_query c page ap) = Response 400 b
      \<longrightarrow> fetch_page c rend page ap = Inr [])
   \<and> (rerr (page_query c page ap) = Response status b' \<and> raises_for_status status \<and> status \<noteq> 400
      \<longrightarrow> fetch_page c rerr page ap = Inl WordPressAPIError)
   \<and> (rexc (page_query c page ap) = RequestException
      \<longrightarrow> fetch_page c rexc page ap = Inl WordPressAPIError)
   \<and> (rbad (page_query c page ap) = Response ok InvalidJson \<and> \<not> raises_for_status ok
      \<longrightarrow> fetch_page c rbad page ap = Inl WordPressAPIError)
   \<and> (rok (page_query c page ap) = Response ok (JsonBody posts) \<and> \<not> raises_for_status ok
      \<longrightarrow> fetch_page c rok page ap = Inr posts)"
  by (simp add: fetch_page_def classify_response_def raises_for_status_def)

text \<open>
  C6 as stated fails: a page request answered with status 404, a client-class status, is
  not taken as the end of the data; \<^verbatim>\<open>fetch_page\<close> raises.
\<close>

theorem not_found_is_error_counterexample:
  "fetch_page (WordPressClient 100) (\<lambda>q. Response 404 (JsonBody ([] :: unit list))) 7
      \<lparr>ap_search = None, ap_modified_after = None\<rparr> = Inl WordPressAPIError
   \<and> fetch_page (WordPressClient 100) (\<lambda>q. Response 404 (JsonBody ([] :: unit list))) 7
      \<lparr>ap_search = None, ap_modified_after = None\<rparr> \<noteq> Inr []"
  by (simp add: fetch_page_def classify_response_def raises_for_status_def)

text \<open>
  The theorem of C5 at two versions of the post with id 7, in a table that holds post 3;
  and at a batch whose second record has the id \<open>2^63\<close>.
\<close>

theorem upsert_same_identity_witness:
  "p_id (blank_post\<lparr>p_id := Some 7, p_title := Some ''old''\<rparr>) = Some 7
   \<and> p_id (blank_post\<lparr>p_id := Some 7, p_title := Some ''new''\<rparr>) = Some 7
   \<and> storable (blank_post\<lparr>p_id := Some 7, p_title := Some ''old''\<rparr>)
   \<and> storable (blank_post\<lparr>p_id := Some 7, p_title := Some ''new''\<rparr>)
   \<and> (\<exists>t1 t2. insert_post_sqlite3 [blank_post\<lparr>p_id := Some 3\<rparr>]
                  (blank_post\<lparr>p_id := Some 7, p_title := Some ''old''\<rparr>) = Inr t1
          \<and> insert_post_sqlite3 t1 (blank_post\<lparr>p_id := Some 7, p_title := Some ''new''\<rparr>)
              = Inr t2
          \<and> filter (\<lambda>r. p_id r = Some 7) t2
              = [blank_post\<lparr>p_id := Some 7, p_title := Some ''new''\<rparr>]
          \<and> get_post_count t2 = get_post_count t1)
   \<and> list_all (\<lambda>p. p_id p \<noteq> None \<and> storable p) [blank_post\<lparr>p_id := Some 7\<rparr>]
   \<and> distinct (map p_id [blank_post\<lparr>p_id := Some 3\<rparr>])
   \<and> (\<exists>t. insert_posts_batch_sqlite3 [blank_post\<lparr>p_id := Some 3\<rparr>]
              [blank_post\<lparr>p_id := Some 7\<rparr>] = Inr t
          \<and> distinct (map p_id t))
   \<and> list_ex (\<lambda>p. \<not> storable p)
        [blank_post\<lparr>p_id := Some 7\<rparr>, blank_post\<lparr>p_id := Some 9223372036854775808\<rparr>]
   \<and> (\<exists>e. insert_posts_batch_sqlite3 [blank_post\<lparr>p_id := Some 3\<rparr>]
              [blank_post\<lparr>p_id := Some 7\<rparr>, blank_post\<lparr>p_id := Some 9223372036854775808\<rparr>]
            = Inl e)"
proof -
  let ?old = "blank_post\<lparr>p_id := Some 7, p_title := Some ''old''\<rparr>"
  let ?new = "blank_post\<lparr>p_id := Some 7, p_title := Some ''new''\<rparr>"
  have h1: "p_id ?old = Some 7" by simp
  have h2: "p_id ?new = Some 7" by simp
  have h3: "storable ?old"
    by (simp add: storable_def sqlite_opt_def sqlite_int_def blank_post_def)
  have h4: "storable ?new"
    by (simp add: storable_def sqlite_opt_def sqlite_int_def blank_post_def)
  have h5: "list_all (\<lambda>p. p_id p \<noteq> None \<and> storable p) [blank_post\<lparr>p_id := Some 7\<rparr>]"
    by (simp add: storable_def sqlite_opt_def sqlite_int_def blank_post_def)
  have h6: "distinct (map p_id [blank_post\<lparr>p_id := Some 3\<rparr>])" by simp
  have h7: "list_ex (\<lambda>p. \<not> storable p)
        [blank_post\<lparr>p_id := Some 7\<rparr>, blank_post\<lparr>p_id := Some 9223372036854775808\<rparr>]"
    by (simp add: storable_def sqlite_opt_def sqlite_int_def blank_post_def)
  note inst = upsert_same_identity [OF h1 h2 h3 h4,
      where tbl = "[blank_post\<lparr>p_id := Some 3\<rparr>]"
        and posts_data = "[blank_post\<lparr>p_id := Some 7\<rparr>]"
        and batch = "[blank_post\<lparr>p_id := Some 7\<rparr>,
                      blank_post\<lparr>p_id := Some 9223372036854775808\<rparr>]"]
  from inst h1 h2 h3 h4 h5 h6 h7 show ?thesis by blast
qed

text \<open>
  The theorem of C6 at the statuses 400, 403 and 200.
\<close>

theorem fetch_page_classification_witness:
  "(\<lambda>q. Response 400 InvalidJson :: unit transport_result)
       (page_query (WordPressClient 100) 5 \<lparr>ap_search = None, ap_modified_after = None\<rparr>)
     = Response 400 InvalidJson
   \<and> fetch_page (WordPressClient 100) (\<lambda>q. Response 400 InvalidJson :: unit transport_result) 5
        \<lparr>ap_search = None, ap_modified_after = None\<rparr> = Inr []
   \<and> raises_for_status 403 \<and> (403::nat) \<noteq> 400
   \<and> fetch_page (WordPressClient 100) (\<lambda>q. Response 403 InvalidJson :: unit transport_result) 5
        \<lparr>ap_search = None, ap_modified_after = None\<rparr> = Inl WordPressAPIError
   \<and> fetch_page (WordPressClient 100) (\<lambda>q. RequestException :: unit transport_result) 5
        \<lparr>ap_search = None, ap_modified_after = None\<rparr> = Inl WordPressAPIError
   \<and> \<not> raises_for_status 200
   \<and> fetch_page (WordPressClient 100) (\<lambda>q. Response 200 InvalidJson :: unit transport_result) 5
        \<lparr>ap_search = None, ap_modified_after = None\<rparr> = Inl WordPressAPIError
   \<and> fetch_page (WordPressClient 100) (\<lambda>q. Response 200 (JsonBody [(), ()])) 5
        \<lparr>ap_search = None, ap_modified_after = None\<rparr> = Inr [(), ()]"
  using fetch_page_classification
    [where c="WordPressClient 100" and page=5
       and ap="\<lparr>ap_search = None, ap_modified_after = None\<rparr>"
       and rend="\<lambda>q. Response 400 InvalidJson :: unit transport_result"
       and b=InvalidJson
       and rerr="\<lambda>q. Response 403 InvalidJson :: unit transport_result"
       and status=403 and b'=InvalidJson
       and rexc="\<lambda>q. RequestException :: unit transport_result"
       and rbad="\<lambda>q. Response 200 InvalidJson :: unit transport_result"
       and ok=200
       and rok="\<lambda>q. Response 200 (JsonBody [(), ()])"
       and posts="[(), ()]"]
  by (simp add: raises_for_status_def)

section \<open>Properties of a run\<close>

lemma fetch_all_invariant:
  assumes run: "fetch_all fuel c remote mp ap body page pf s = Some (r, s')"
    and init: "Q s"
    and req: "\<And>x n. Q x \<Longrightarrow> Q (x\<lparr>trace := trace x @ [NetRequest (page_query c n ap)]\<rparr>)"
    and bod: "\<And>x posts. Q x \<Longrightarrow> Q (body posts x)"
  shows "Q s'"
  using run init
proof (induction fuel arbitrary: page pf s)
  case 0
  then show ?case by simp
next
  case (Suc fuel)
  let ?s1 = "s\<lparr>trace := trace s @ [NetRequest (page_query c page ap)]\<rparr>"
  have q1: "Q ?s1" using Suc.prems(2) by (rule req)
  show ?case
  proof (cases "case mp of None \<Rightarrow> False | Some m \<Rightarrow> m \<noteq> 0 \<and> pf \<ge> m")
    case True
    with Suc.prems show ?thesis by simp
  next
    case nolimit: False
    show ?thesis
    proof (cases "fetch_page c remote page ap")
      case (Inl e)
      with nolimit Suc.prems(1) have "s' = ?s1" by (simp add: Let_def)
      with q1 show ?thesis by simp
    next
      case (Inr posts)
      show ?thesis
      proof (cases "posts = []")
        case True
        with Inr nolimit Suc.prems(1) have "s' = ?s1" by (simp add: Let_def)
        with q1 show ?thesis by simp
      next
        case False
        with Inr nolimit Suc.prems(1)
        have "fetch_all fuel c remote mp ap body (page + 1) (pf + 1) (body posts ?s1)
                = Some (r, s')"
          by (simp add: Let_def)
        moreover have "Q (body posts ?s1)" using q1 by (rule bod)
        ultimately show ?thesis by (rule Suc.IH)
      qed
    qed
  qed
qed


lemma within_limit_continue:
  "within_limit mp pf \<Longrightarrow> \<not> (case mp of None \<Rightarrow> False | Some m \<Rightarrow> m \<noteq> 0 \<and> pf \<ge> m)"
  by (auto simp: within_limit_def split: option.splits)

lemma page_body_fields:
  "posts_db (page_body clock url posts x) = posts_db x"
  "current_page (page_body clock url posts x) = current_page x + 1"
  "last_page_completed (page_body clock url posts x) = current_page x"
  "trace (page_body clock url posts x)
     = trace x @ [WriteProgress (current_page x) (int (length (all_posts_raw x @ posts)))]"
  "meta (page_body clock url posts x)
     = update_progress (clock (length (trace x))) (meta x) url (current_page x)
         (int (length (all_posts_raw x @ posts)))"
  by (simp_all add: page_body_def Let_def)


lemma collect_body_fields:
  "posts_db (collect_body posts x) = posts_db x"
  "meta (collect_body posts x) = meta x"
  "trace (collect_body posts x) = trace x"
  "last_page_completed (collect_body posts x) = last_page_completed x"
  by (simp_all add: collect_body_def)

lemma paging_event_simps:
  "paging_event (NetRequest q)"
  "paging_event MetaCreateTable"
  "paging_event DbCreateTable"
  "paging_event (WriteProgress p n)"
  "\<not> paging_event (InsertBatch k)"
  "\<not> paging_event (WriteFinal st)"
  by (simp_all add: paging_event_def)

lemma process_and_store_result:
  assumes "process_and_store clock ex cfg s = (res, s')"
  shows "res = Returned True
       \<and> (\<exists>post. trace s' = trace s @ post
             \<and> (post = [WriteFinal ''complete'']
                 \<or> (\<exists>n. post = [InsertBatch n, WriteFinal ''complete''])))"
  using assms by (auto simp: process_and_store_def Let_def split: if_splits)

lemma validated_count:
  "validate_endpoint remote = Inr v \<Longrightarrow> get_total_posts_count remote = Inr ()"
  by (auto simp: validate_endpoint_def get_total_posts_count_def split: transport_result.splits)

lemma standard_scrape_shape:
  fixes s :: "'r scrape_state"
  assumes run: "standard_scrape fuel clock ex c remote cfg s = Some (res, s')"
    and init: "list_all paging_event (trace s)"
  shows "\<exists>pre post. trace s' = pre @ post \<and> list_all paging_event pre
           \<and> ((post = [] \<and> posts_db s' = posts_db s)
               \<or> post = [WriteFinal ''complete'']
               \<or> (\<exists>n. post = [InsertBatch n, WriteFinal ''complete'']))"
proof (cases "get_total_posts_count remote")
  case (Inl e)
  with run have "s' = s\<lparr>trace := trace s @ [NetRequest probe_query]\<rparr>"
    by (simp add: standard_scrape_def Let_def)
  with init have "trace s' = trace s' @ [] \<and> list_all paging_event (trace s')
                  \<and> posts_db s' = posts_db s"
    by (simp add: paging_event_simps)
  then show ?thesis by blast
next
  case (Inr u)
  let ?s2 = "s\<lparr>trace := trace s @ [NetRequest probe_query],
               current_page := cfg_start_page cfg\<rparr>"
  let ?loop = "fetch_all fuel c remote (cfg_max_pages cfg) (search_params (cfg_search cfg))
                 (page_body clock (cfg_wordpress_url cfg)) (cfg_start_page cfg) 0 ?s2"
  from run Inr obtain r s3 where loop: "?loop = Some (r, s3)"
    by (cases ?loop) (auto simp: standard_scrape_def Let_def)
  let ?Q = "\<lambda>x :: 'r scrape_state. list_all paging_event (trace x) \<and> posts_db x = posts_db s"
  have q3: "?Q s3"
  proof (rule fetch_all_invariant [where Q = ?Q, OF loop])
    show "?Q ?s2" using init by (simp add: paging_event_simps)
  next
    fix x n assume "?Q x"
    then show "?Q (x\<lparr>trace := trace x @ [NetRequest (page_query c n (search_params (cfg_search cfg)))]\<rparr>)"
      by (simp add: paging_event_simps)
  next
    fix x posts assume "?Q x"
    then show "?Q (page_body clock (cfg_wordpress_url cfg) posts x)"
      by (simp add: page_body_fields paging_event_simps)
  qed
  show ?thesis
  proof (cases r)
    case (Some e)
    with run Inr loop have "s' = s3" by (simp add: standard_scrape_def Let_def)
    with q3 have "trace s' = trace s' @ [] \<and> list_all paging_event (trace s')
                  \<and> posts_db s' = posts_db s"
      by simp
    then show ?thesis by blast
  next
    case None
    with run Inr loop have "process_and_store clock ex cfg s3 = (res, s')"
      by (simp add: standard_scrape_def Let_def)
    from process_and_store_result [OF this] q3 show ?thesis by blast
  qed
qed

lemma update_scrape_shape:
  fixes s :: "'r scrape_state"
  assumes run: "update_scrape fuel clock ex c remote cfg t s = Some (res, s')"
    and init: "list_all paging_event (trace s)"
  shows "\<exists>pre post. trace s' = pre @ post \<and> list_all paging_event pre
           \<and> ((post = [] \<and> posts_db s' = posts_db s)
               \<or> post = [WriteFinal ''complete'']
               \<or> (\<exists>n. post = [InsertBatch n, WriteFinal ''complete'']))"
proof -
  let ?loop = "fetch_all fuel c remote None (since_params t (cfg_search cfg))
                 collect_body 1 0 (s\<lparr>all_posts_raw := []\<rparr>)"
  from run obtain r s1 where loop: "?loop = Some (r, s1)"
    by (cases ?loop) (auto simp: update_scrape_def fetch_modified_since_def)
  let ?Q = "\<lambda>x :: 'r scrape_state. list_all paging_event (trace x) \<and> posts_db x = posts_db s"
  have q1: "?Q s1"
  proof (rule fetch_all_invariant [where Q = ?Q, OF loop])
    show "?Q (s\<lparr>all_posts_raw := []\<rparr>)" using init by simp
  next
    fix x n assume "?Q x"
    then show "?Q (x\<lparr>trace := trace x @ [NetRequest (page_query c n (since_params t (cfg_search cfg)))]\<rparr>)"
      by (simp add: paging_event_simps)
  next
    fix x posts assume "?Q x"
    then show "?Q (collect_body posts x)"
      by (simp add: collect_body_fields)
  qed
  show ?thesis
  proof (cases r)
    case (Some e)
    with run loop have "s' = s1" by (simp add: update_scrape_def fetch_modified_since_def)
    with q1 have "trace s' = trace s' @ [] \<and> list_all paging_event (trace s')
                  \<and> posts_db s' = posts_db s"
      by simp
    then show ?thesis by blast
  next
    case None
    show ?thesis
    proof (cases "all_posts_raw s1 = []")
      case True
      with None run loop have "s' = s1" by (simp add: update_scrape_def fetch_modified_since_def)
      with q1 have "trace s' = trace s' @ [] \<and> list_all paging_event (trace s')
                  \<and> posts_db s' = posts_db s"
        by simp
      then show ?thesis by blast
    next
      case False
      with None run loop have "process_and_store clock ex cfg s1 = (res, s')"
        by (simp add: update_scrape_def fetch_modified_since_def)
      from process_and_store_result [OF this] q1 show ?thesis by blast
    qed
  qed
qed

text \<open>
  C1 (as amended). In every run that returns, the events split in two: first the paging
  phase, in which no record is stored (requests, table creation and the page
  checkpoints), then at most one batch insert directly followed by the final write with
  status \<^verbatim>\<open>complete\<close>. So every checkpoint
  of the run precedes the one commit of the run's records, the final write follows that
  commit, and a run that ends without the final write leaves the entity store as it was.
\<close>

theorem store_follows_all_checkpoints:
  assumes run: "run_scraper fuel clock ex remote cfg update resume meta0 db0 = Some (res, s')"
  shows "\<exists>pre post. trace s' = pre @ post \<and> list_all paging_event pre
           \<and> ((post = [] \<and> posts_db s' = db0)
               \<or> post = [WriteFinal ''complete'']
               \<or> (\<exists>n. post = [InsertBatch n, WriteFinal ''complete'']))"
proof -
  let ?s0 = "\<lparr>meta = meta0, posts_db = db0, all_posts_raw = [],
              current_page = cfg_start_page cfg, last_page_completed = 0,
              trace = [NetRequest probe_query]\<rparr> :: 'a scrape_state"
  let ?s1 = "?s0\<lparr>trace := trace ?s0 @ [MetaCreateTable, DbCreateTable]\<rparr>"
  have early: "s' = ?s0 \<or> s' = ?s1 \<Longrightarrow> ?thesis"
  proof -
    assume "s' = ?s0 \<or> s' = ?s1"
    then have "trace s' = trace s' @ [] \<and> list_all paging_event (trace s') \<and> posts_db s' = db0"
      by (auto simp: paging_event_simps)
    then show ?thesis by blast
  qed
  have p1: "list_all paging_event (trace ?s1)" by (simp add: paging_event_simps)
  have d1: "posts_db ?s1 = db0" by simp
  show ?thesis
  proof (cases "validate_endpoint remote")
    case (Inl e)
    with run have "s' = ?s0" by (simp add: run_scraper_def Let_def)
    then show ?thesis using early by blast
  next
    case (Inr valid)
    show ?thesis
    proof (cases valid)
      case False
      with Inr run have "s' = ?s0" by (simp add: run_scraper_def Let_def)
      then show ?thesis using early by blast
    next
      case True
      show ?thesis
      proof (cases "resume_block cfg resume meta0")
        case None
        with True Inr run have "s' = ?s1" by (simp add: run_scraper_def Let_def)
        then show ?thesis using early by blast
      next
        case (Some cfg1)
        show ?thesis
        proof (cases "update_block cfg1 update meta0")
          case UpdateRefused
          with Some True Inr run have "s' = ?s1" by (simp add: run_scraper_def Let_def)
          then show ?thesis using early by blast
        next
          case NoUpdate
          with Some True Inr run
          have "standard_scrape fuel clock ex (WordPressClient (cfg_per_page cfg)) remote cfg1 ?s1
                  = Some (res, s')"
            by (simp add: run_scraper_def Let_def)
          from standard_scrape_shape [OF this p1] d1 show ?thesis by simp
        next
          case (UpdateSince t)
          with Some True Inr run
          have "update_scrape fuel clock ex (WordPressClient (cfg_per_page cfg)) remote cfg1 t ?s1
                  = Some (res, s')"
            by (simp add: run_scraper_def Let_def)
          from update_scrape_shape [OF this p1] d1 show ?thesis by simp
        qed
      qed
    qed
  qed
qed

lemma resume_block_keeps:
  assumes "resume_block cfg resume tbl = Some cfg1"
  shows "cfg_wordpress_url cfg1 = cfg_wordpress_url cfg"
    and "cfg_search cfg1 = cfg_search cfg"
    and "cfg_max_pages cfg1 = cfg_max_pages cfg"
    and "cfg_per_page cfg1 = cfg_per_page cfg"
  using assms by (auto simp: resume_block_def Let_def split: if_splits option.splits)

lemma resume_block_no_conflict:
  assumes "\<not> search_conflict (get_search_query tbl (cfg_wordpress_url cfg)) (cfg_search cfg)"
  shows "\<exists>cfg1. resume_block cfg resume tbl = Some cfg1"
  using assms by (auto simp: resume_block_def Let_def split: option.splits)

lemma resume_block_conflict:
  assumes "resume"
    and "search_conflict (get_search_query tbl (cfg_wordpress_url cfg)) (cfg_search cfg)"
  shows "resume_block cfg resume tbl = None"
  using assms by (simp add: resume_block_def Let_def)

lemma search_conflict_iff:
  "search_conflict stored requested
     \<longleftrightarrow> stored \<noteq> requested \<and> (truthy stored \<or> truthy requested)"
  by (auto simp: search_conflict_def)

lemma fetch_all_Some_fuel:
  "fetch_all fuel c remote mp ap body page pf s = Some x \<Longrightarrow> 0 < fuel"
  by (cases fuel) simp_all

lemma fetch_all_first_request:
  fixes s :: "'r scrape_state"
  assumes run: "fetch_all fuel c remote mp ap body page pf s = Some (r, s')"
    and lim: "within_limit mp pf"
    and bod: "\<And>(x :: 'r scrape_state) posts. \<exists>evs. trace (body posts x) = trace x @ evs"
  shows "\<exists>evs. trace s' = trace s @ NetRequest (page_query c page ap) # evs"
proof -
  from run obtain f where f: "fuel = Suc f" by (cases fuel) simp_all
  have nl: "\<not> (case mp of None \<Rightarrow> False | Some m \<Rightarrow> m \<noteq> 0 \<and> pf \<ge> m)"
    using lim by (rule within_limit_continue)
  let ?s1 = "s\<lparr>trace := trace s @ [NetRequest (page_query c page ap)]\<rparr>"
  let ?Q = "\<lambda>x :: 'r scrape_state. \<exists>evs. trace x = trace s @ NetRequest (page_query c page ap) # evs"
  have q1: "?Q ?s1" by simp
  show ?thesis
  proof (cases "fetch_page c remote page ap")
    case (Inl e)
    with nl run have "s' = ?s1" by (simp add: f Let_def)
    with q1 show ?thesis by simp
  next
    case (Inr posts)
    show ?thesis
    proof (cases "posts = []")
      case True
      with Inr nl run have "s' = ?s1" by (simp add: f Let_def)
      with q1 show ?thesis by simp
    next
      case False
      with Inr nl run
      have rec: "fetch_all f c remote mp ap body (page + 1) (pf + 1) (body posts ?s1) = Some (r, s')"
        by (simp add: f Let_def)
      show ?thesis
      proof (rule fetch_all_invariant [where Q = ?Q, OF rec])
        from bod [of posts ?s1] obtain evs where "trace (body posts ?s1) = trace ?s1 @ evs"
          by blast
        then show "?Q (body posts ?s1)" by simp
      next
        fix x :: "'r scrape_state" and n
        assume "?Q x"
        then show "?Q (x\<lparr>trace := trace x @ [NetRequest (page_query c n ap)]\<rparr>)" by auto
      next
        fix x :: "'r scrape_state" and posts'
        assume "?Q x"
        moreover from bod [of posts' x] obtain evs where "trace (body posts' x) = trace x @ evs"
          by blast
        ultimately show "?Q (body posts' x)" by auto
      qed
    qed
  qed
qed

lemma since_only_page_query:
  "since_only t (NetRequest (page_query c n (since_params t search)))"
  by (simp add: page_query_def since_params_def)

lemma update_scrape_requests:
  fixes s :: "'r scrape_state"
  assumes run: "update_scrape fuel clock ex c remote cfg t s = Some (res, s')"
    and init: "list_all (since_only t) (trace s)" "\<not> list_ex is_checkpoint (trace s)"
  shows "list_all (since_only t) (trace s')"
    and "\<not> list_ex is_checkpoint (trace s')"
    and "\<exists>evs. trace s' = trace s @ NetRequest (page_query c 1 (since_params t (cfg_search cfg))) # evs"
proof -
  let ?loop = "fetch_all fuel c remote None (since_params t (cfg_search cfg))
                 collect_body 1 0 (s\<lparr>all_posts_raw := []\<rparr>)"
  from run obtain r s1 where loop: "?loop = Some (r, s1)"
    by (cases ?loop) (auto simp: update_scrape_def fetch_modified_since_def)
  let ?Q = "\<lambda>x :: 'r scrape_state. list_all (since_only t) (trace x) \<and> \<not> list_ex is_checkpoint (trace x)"
  have q1: "?Q s1"
  proof (rule fetch_all_invariant [where Q = ?Q, OF loop])
    show "?Q (s\<lparr>all_posts_raw := []\<rparr>)" using init by simp
  next
    fix x :: "'r scrape_state" and n
    assume "?Q x"
    then show "?Q (x\<lparr>trace := trace x @ [NetRequest (page_query c n (since_params t (cfg_search cfg)))]\<rparr>)"
      by (simp add: page_query_def since_params_def)
  next
    fix x :: "'r scrape_state" and posts
    assume "?Q x"
    then show "?Q (collect_body posts x)" by (simp add: collect_body_fields)
  qed
  have first: "\<exists>evs. trace s1 = trace (s\<lparr>all_posts_raw := []\<rparr>)
                  @ NetRequest (page_query c 1 (since_params t (cfg_search cfg))) # evs"
  proof (rule fetch_all_first_request [OF loop])
    show "within_limit None 0" by (simp add: within_limit_def)
  next
    fix x :: "'r scrape_state" and posts
    show "\<exists>evs. trace (collect_body posts x) = trace x @ evs"
      by (simp add: collect_body_fields)
  qed
  have fin: "s' = s1 \<or> process_and_store clock ex cfg s1 = (res, s')"
    using run loop
    by (cases r) (auto simp: update_scrape_def fetch_modified_since_def split: if_splits)
  then have ext: "\<exists>post. trace s' = trace s1 @ post \<and> list_all (\<lambda>e. is_store e \<or> is_final e) post"
  proof
    assume "s' = s1"
    then show ?thesis by simp
  next
    assume "process_and_store clock ex cfg s1 = (res, s')"
    from process_and_store_result [OF this] show ?thesis by auto
  qed
  then obtain post where post: "trace s' = trace s1 @ post"
    and pk: "list_all (\<lambda>e. is_store e \<or> is_final e) post"
    by blast
  have a: "list_all (since_only t) post"
    using pk by (induction post) (auto elim: is_store.elims is_final.elims)
  have b: "\<not> list_ex is_checkpoint post"
    using pk by (induction post) (auto elim: is_store.elims is_final.elims)
  show "list_all (since_only t) (trace s')" using q1 post a by simp
  show "\<not> list_ex is_checkpoint (trace s')" using q1 post b by simp
  from first obtain evs where "trace s1 = trace s @ NetRequest (page_query c 1 (since_params t (cfg_search cfg))) # evs"
    by auto
  with post show "\<exists>evs. trace s' = trace s @ NetRequest (page_query c 1 (since_params t (cfg_search cfg))) # evs"
    by simp
qed

lemma stored_values:
  assumes "get_latest_metadata tbl url = Some r"
  shows "get_search_query tbl url = search_query r"
    and "get_latest_modified_date tbl url = latest_post_modified r"
    and "get_next_page_to_fetch tbl url = Some (next_page_to_fetch r)"
    and "get_last_page_scraped tbl url = Some (last_page_scraped r)"
  using assms
  by (simp_all add: get_search_query_def get_latest_modified_date_def
        get_next_page_to_fetch_def get_last_page_scraped_def)

lemma run_scraper_update_mode:
  assumes v: "validate_endpoint remote = Inr True"
    and latest: "get_latest_metadata meta0 (cfg_wordpress_url cfg) = Some r"
    and wm: "latest_post_modified r = Some t" "t \<noteq> []"
    and nc: "\<not> search_conflict (search_query r) (cfg_search cfg)"
  shows "\<exists>cfg1. cfg_search cfg1 = cfg_search cfg
           \<and> run_scraper fuel clock ex remote cfg True resume meta0 db0
               = update_scrape fuel clock ex (WordPressClient (cfg_per_page cfg)) remote cfg1 t
                   \<lparr>meta = meta0, posts_db = db0, all_posts_raw = [],
                    current_page = cfg_start_page cfg, last_page_completed = 0,
                    trace = [NetRequest probe_query, MetaCreateTable, DbCreateTable]\<rparr>"
proof -
  have nc': "\<not> search_conflict (get_search_query meta0 (cfg_wordpress_url cfg)) (cfg_search cfg)"
    using nc stored_values(1) [OF latest] by simp
  from resume_block_no_conflict [OF nc', of resume]
  obtain cfg1 where rb: "resume_block cfg resume meta0 = Some cfg1" by blast
  note k = resume_block_keeps [OF rb]
  have ub: "update_block cfg1 True meta0 = UpdateSince t"
    using nc wm stored_values(1,2) [OF latest]
    by (simp add: update_block_def Let_def k)
  have "run_scraper fuel clock ex remote cfg True resume meta0 db0
               = update_scrape fuel clock ex (WordPressClient (cfg_per_page cfg)) remote cfg1 t
                   \<lparr>meta = meta0, posts_db = db0, all_posts_raw = [],
                    current_page = cfg_start_page cfg, last_page_completed = 0,
                    trace = [NetRequest probe_query, MetaCreateTable, DbCreateTable]\<rparr>"
    using v rb ub by (simp add: run_scraper_def Let_def)
  with k(2) show ?thesis by blast
qed

lemma update_scrape_nothing_new:
  assumes "fetch_page c remote 1 (since_params t (cfg_search cfg)) = Inr []"
    and "0 < fuel"
  shows "update_scrape fuel clock ex c remote cfg t s
           = Some (Returned True,
                   s\<lparr>all_posts_raw := [],
                     trace := trace s @ [NetRequest (page_query c 1 (since_params t (cfg_search cfg)))]\<rparr>)"
proof -
  from assms(2) obtain f where f: "fuel = Suc f" by (cases fuel) simp_all
  show ?thesis
    using assms(1) by (simp add: update_scrape_def fetch_modified_since_def f Let_def)
qed

text \<open>
  C9. Let the authoritative row of the source hold the watermark \<open>t\<close> (not empty) and
  a search query that does not conflict with the requested one, and let the endpoint
  validate. Then (1) whatever an update run fetches, its first page request is for page 1
  with \<^verbatim>\<open>modified_after\<close> equal to \<open>t\<close>, every page request of the run carries
  exactly that date, and no page checkpoint is written; (2) when the remote has nothing
  for that first request, the run returns \<^verbatim>\<open>True\<close> having made that single page
  request, and both tables are what they were before the run: no field of the stored
  checkpoint has changed.
\<close>

theorem update_without_news_is_noop:
  assumes v: "validate_endpoint remote = Inr True"
    and latest: "get_latest_metadata meta0 (cfg_wordpress_url cfg) = Some r"
    and wm: "latest_post_modified r = Some t" "t \<noteq> []"
    and nc: "\<not> search_conflict (search_query r) (cfg_search cfg)"
  shows "(run_scraper fuel clock ex remote cfg True resume meta0 db0 = Some (res, s')
            \<longrightarrow> list_all (since_only t) (trace s')
                \<and> \<not> list_ex is_checkpoint (trace s')
                \<and> (\<exists>evs. trace s' =
                       [NetRequest probe_query, MetaCreateTable, DbCreateTable,
                        NetRequest (page_query (WordPressClient (cfg_per_page cfg)) 1
                                      (since_params t (cfg_search cfg)))] @ evs))
       \<and> (fetch_page (WordPressClient (cfg_per_page cfg)) remote 1
              (since_params t (cfg_search cfg)) = Inr [] \<and> 0 < fuel
            \<longrightarrow> (\<exists>s'. run_scraper fuel clock ex remote cfg True resume meta0 db0
                          = Some (Returned True, s')
                      \<and> meta s' = meta0 \<and> posts_db s' = db0
                      \<and> get_latest_metadata (meta s') (cfg_wordpress_url cfg) = Some r
                      \<and> trace s' =
                          [NetRequest probe_query, MetaCreateTable, DbCreateTable,
                           NetRequest (page_query (WordPressClient (cfg_per_page cfg)) 1
                                         (since_params t (cfg_search cfg)))]))"
proof (intro conjI impI)
  from run_scraper_update_mode [OF v latest wm nc, of fuel clock ex resume db0]
  obtain cfg1 where s: "cfg_search cfg1 = cfg_search cfg"
    and eq: "run_scraper fuel clock ex remote cfg True resume meta0 db0
               = update_scrape fuel clock ex (WordPressClient (cfg_per_page cfg)) remote cfg1 t
                   \<lparr>meta = meta0, posts_db = db0, all_posts_raw = [],
                    current_page = cfg_start_page cfg, last_page_completed = 0,
                    trace = [NetRequest probe_query, MetaCreateTable, DbCreateTable]\<rparr>"
    by blast
  {
    assume "run_scraper fuel clock ex remote cfg True resume meta0 db0 = Some (res, s')"
    with eq have u: "update_scrape fuel clock ex (WordPressClient (cfg_per_page cfg)) remote cfg1 t
                   \<lparr>meta = meta0, posts_db = db0, all_posts_raw = [],
                    current_page = cfg_start_page cfg, last_page_completed = 0,
                    trace = [NetRequest probe_query, MetaCreateTable, DbCreateTable]\<rparr>
                 = Some (res, s')" by simp
    have i1: "list_all (since_only t) [NetRequest probe_query, MetaCreateTable, DbCreateTable]"
      by (simp add: probe_query_def)
    have i2: "\<not> list_ex is_checkpoint [NetRequest probe_query, MetaCreateTable, DbCreateTable]"
      by simp
    from update_scrape_requests(1) [OF u] i1 i2
    show "list_all (since_only t) (trace s')" by simp
    from update_scrape_requests(2) [OF u] i1 i2
    show "\<not> list_ex is_checkpoint (trace s')" by simp
    from update_scrape_requests(3) [OF u] i1 i2 s
    show "\<exists>evs. trace s' =
                       [NetRequest probe_query, MetaCreateTable, DbCreateTable,
                        NetRequest (page_query (WordPressClient (cfg_per_page cfg)) 1
                                      (since_params t (cfg_search cfg)))] @ evs"
      by simp
  }
  {
    assume h: "fetch_page (WordPressClient (cfg_per_page cfg)) remote 1
              (since_params t (cfg_search cfg)) = Inr [] \<and> 0 < fuel"
    then have "fetch_page (WordPressClient (cfg_per_page cfg)) remote 1
              (since_params t (cfg_search cfg1)) = Inr []" and "0 < fuel"
      using s by simp_all
    from update_scrape_nothing_new [OF this] eq s latest
    show "\<exists>s'. run_scraper fuel clock ex remote cfg True resume meta0 db0
                          = Some (Returned True, s')
                      \<and> meta s' = meta0 \<and> posts_db s' = db0
                      \<and> get_latest_metadata (meta s') (cfg_wordpress_url cfg) = Some r
                      \<and> trace s' =
                          [NetRequest probe_query, MetaCreateTable, DbCreateTable,
                           NetRequest (page_query (WordPressClient (cfg_per_page cfg)) 1
                                         (since_params t (cfg_search cfg)))]"
      by simp
  }
qed

text \<open>
  C4 (as amended). Let the endpoint validate, let the run be a resume or an update run,
  and let the stored search query differ from the requested one with at least one of the
  two non-empty. Then the run returns \<^verbatim>\<open>False\<close>; the only request it has made is
  the validation request and the only storage activity the creation of the two tables
  (which changes no row); no page is fetched, and both tables are what they were.
\<close>

theorem filter_mismatch_rejected:
  assumes v: "validate_endpoint remote = Inr True"
    and mode: "resume \<or> update"
    and differ: "get_search_query meta0 (cfg_wordpress_url cfg) \<noteq> cfg_search cfg"
    and some: "truthy (get_search_query meta0 (cfg_wordpress_url cfg)) \<or> truthy (cfg_search cfg)"
  shows "\<exists>s'. run_scraper fuel clock ex remote cfg update resume meta0 db0 = Some (Returned False, s')
           \<and> meta s' = meta0 \<and> posts_db s' = db0
           \<and> trace s' = [NetRequest probe_query, MetaCreateTable, DbCreateTable]"
proof -
  have c: "search_conflict (get_search_query meta0 (cfg_wordpress_url cfg)) (cfg_search cfg)"
    using differ some by (simp add: search_conflict_iff)
  show ?thesis
  proof (cases resume)
    case True
    then have "resume_block cfg resume meta0 = None"
      using c by (rule resume_block_conflict)
    with v show ?thesis by (simp add: run_scraper_def Let_def)
  next
    case False
    with mode have u: update by simp
    from False have rb: "resume_block cfg resume meta0 = Some cfg"
      by (simp add: resume_block_def)
    have "update_block cfg update meta0 = UpdateRefused"
      using u c by (simp add: update_block_def Let_def)
    with v rb show ?thesis by (simp add: run_scraper_def Let_def)
  qed
qed

text \<open>
  C1 as stated fails. With one page of records at the remote and the next page request
  failing, the run ends with the progress store saying that page 1 is done and page 2 is
  next, while the entity store is empty: the records of page 1 were never stored. And in
  the run that succeeds, the checkpoint of page 1 is written before the batch insert.
\<close>

theorem checkpoint_before_store_counterexample:
  "map_option (\<lambda>(res, s). (res, map next_page_to_fetch (meta s), map last_page_scraped (meta s),
                               posts_db s))
     (run_scraper 3 example_clock example_extract (serving 1 RequestException) example_cfg
        False False [] [])
     = Some (Returned False, [2], [1], [])
   \<and> map_option (\<lambda>(res, s). (res, trace s))
       (run_scraper 3 example_clock example_extract (serving 1 (Response 400 InvalidJson))
          example_cfg False False [] [])
     = Some (Returned True,
         [NetRequest probe_query, MetaCreateTable, DbCreateTable, NetRequest probe_query,
          NetRequest \<lparr>q_per_page = 100, q_page = Some 1, q_search = None,
                      q_modified_after = None\<rparr>,
          WriteProgress 1 1,
          NetRequest \<lparr>q_per_page = 100, q_page = Some 2, q_search = None,
                      q_modified_after = None\<rparr>,
          InsertBatch 1, WriteFinal ''complete''])"
  by (simp add: run_defs eval_nat_numeral)

text \<open>
  The theorem of C1 at the run that succeeds.
\<close>

theorem store_follows_all_checkpoints_witness:
  "\<exists>res s'. run_scraper 3 example_clock example_extract (serving 1 (Response 400 InvalidJson))
               example_cfg False False [] [] = Some (res, s')
     \<and> (\<exists>pre post. trace s' = pre @ post \<and> list_all paging_event pre
           \<and> ((post = [] \<and> posts_db s' = [])
               \<or> post = [WriteFinal ''complete'']
               \<or> (\<exists>n. post = [InsertBatch n, WriteFinal ''complete''])))"
proof -
  have "run_scraper 3 example_clock example_extract (serving 1 (Response 400 InvalidJson))
               example_cfg False False [] [] \<noteq> None"
    by (simp add: run_defs eval_nat_numeral)
  then obtain res s' where r: "run_scraper 3 example_clock example_extract
      (serving 1 (Response 400 InvalidJson)) example_cfg False False [] [] = Some (res, s')"
    by (cases "run_scraper 3 example_clock example_extract
      (serving 1 (Response 400 InvalidJson)) example_cfg False False [] []") auto
  from store_follows_all_checkpoints [OF r] r show ?thesis by blast
qed

text \<open>
  C4 as stated fails. A resume run with the search phrase \<^verbatim>\<open>satellite\<close> against a
  session stored with \<^verbatim>\<open>drone\<close> is refused only after the validation request has
  gone out and the tables have been set up. And a session stored with the empty search
  phrase (not NULL) is resumed without a search phrase: the two differ, and the run is
  not refused.
\<close>

theorem mismatch_after_validation_counterexample:
  "map_option (\<lambda>(res, s). (res, trace s))
     (run_scraper 3 example_clock example_extract (serving 4 (Response 400 InvalidJson))
        (example_cfg\<lparr>cfg_search := Some ''satellite''\<rparr>) False True
        [example_row ''in_progress'' None (Some ''drone'')] [])
     = Some (Returned False, [NetRequest probe_query, MetaCreateTable, DbCreateTable])
   \<and> map_option (\<lambda>(res, s). (res, trace s))
       (run_scraper 3 example_clock example_extract (serving 4 (Response 400 InvalidJson))
          example_cfg False True
          [example_row ''in_progress'' None (Some '''')] [])
     = Some (Returned True,
         [NetRequest probe_query, MetaCreateTable, DbCreateTable, NetRequest probe_query,
          NetRequest \<lparr>q_per_page = 100, q_page = Some 4, q_search = None,
                      q_modified_after = None\<rparr>,
          WriteProgress 4 1,
          NetRequest \<lparr>q_per_page = 100, q_page = Some 5, q_search = None,
                      q_modified_after = None\<rparr>,
          InsertBatch 1, WriteFinal ''complete''])"
  by (simp add: run_defs eval_nat_numeral)

text \<open>
  The theorem of C4 at the resume run with \<^verbatim>\<open>satellite\<close> against \<^verbatim>\<open>drone\<close>.
\<close>

theorem filter_mismatch_rejected_witness:
  "validate_endpoint (serving 4 (Response 400 InvalidJson)) = Inr True
   \<and> (True \<or> False)
   \<and> get_search_query [example_row ''in_progress'' None (Some ''drone'')]
        (cfg_wordpress_url (example_cfg\<lparr>cfg_search := Some ''satellite''\<rparr>))
       \<noteq> cfg_search (example_cfg\<lparr>cfg_search := Some ''satellite''\<rparr>)
   \<and> truthy (cfg_search (example_cfg\<lparr>cfg_search := Some ''satellite''\<rparr>))
   \<and> (\<exists>s'. run_scraper 3 example_clock example_extract (serving 4 (Response 400 InvalidJson))
              (example_cfg\<lparr>cfg_search := Some ''satellite''\<rparr>) False True
              [example_row ''in_progress'' None (Some ''drone'')] []
            = Some (Returned False, s')
          \<and> meta s' = [example_row ''in_progress'' None (Some ''drone'')]
          \<and> posts_db s' = []
          \<and> trace s' = [NetRequest probe_query, MetaCreateTable, DbCreateTable])"
proof -
  have v: "validate_endpoint (serving 4 (Response 400 InvalidJson)) = Inr True"
    by (simp add: run_defs)
  have m: "True \<or> False" by simp
  have d: "get_search_query [example_row ''in_progress'' None (Some ''drone'')]
        (cfg_wordpress_url (example_cfg\<lparr>cfg_search := Some ''satellite''\<rparr>))
       \<noteq> cfg_search (example_cfg\<lparr>cfg_search := Some ''satellite''\<rparr>)"
    by (simp add: run_defs)
  have t: "truthy (cfg_search (example_cfg\<lparr>cfg_search := Some ''satellite''\<rparr>))"
    by (simp add: run_defs)
  have t': "truthy (get_search_query [example_row ''in_progress'' None (Some ''drone'')]
        (cfg_wordpress_url (example_cfg\<lparr>cfg_search := Some ''satellite''\<rparr>)))
      \<or> truthy (cfg_search (example_cfg\<lparr>cfg_search := Some ''satellite''\<rparr>))"
    using t by simp
  from filter_mismatch_rejected [OF v m d t', of 3 example_clock example_extract "[]"] v d t
  show ?thesis by simp
qed

text \<open>
  The theorem of C9 at a completed session with the watermark
  \<^verbatim>\<open>2024-01-10T00:00:00\<close> and a remote with nothing newer.
\<close>

theorem update_without_news_is_noop_witness:
  "validate_endpoint (serving 9 (Response 200 (JsonBody []))) = Inr True
   \<and> get_latest_metadata [example_row ''complete'' (Some example_date) None]
        (cfg_wordpress_url example_cfg)
       = Some (example_row ''complete'' (Some example_date) None)
   \<and> latest_post_modified (example_row ''complete'' (Some example_date) None) = Some example_date
   \<and> example_date \<noteq> []
   \<and> \<not> search_conflict (search_query (example_row ''complete'' (Some example_date) None))
          (cfg_search example_cfg)
   \<and> fetch_page (WordPressClient (cfg_per_page example_cfg))
        (serving 9 (Response 200 (JsonBody []))) 1
        (since_params example_date (cfg_search example_cfg)) = Inr []
   \<and> (0::nat) < 1
   \<and> (\<exists>s'. run_scraper 1 example_clock example_extract (serving 9 (Response 200 (JsonBody [])))
              example_cfg True False [example_row ''complete'' (Some example_date) None] []
            = Some (Returned True, s')
          \<and> meta s' = [example_row ''complete'' (Some example_date) None]
          \<and> posts_db s' = []
          \<and> list_all (since_only example_date) (trace s')
          \<and> \<not> list_ex is_checkpoint (trace s')
          \<and> trace s' =
              [NetRequest probe_query, MetaCreateTable, DbCreateTable,
               NetRequest (page_query (WordPressClient (cfg_per_page example_cfg)) 1
                             (since_params example_date (cfg_search example_cfg)))])"
proof -
  let ?R = "serving 9 (Response 200 (JsonBody []))"
  let ?M = "[example_row ''complete'' (Some example_date) None]"
  have v: "validate_endpoint ?R = Inr True"
    by (simp add: run_defs)
  have l: "get_latest_metadata ?M (cfg_wordpress_url example_cfg)
             = Some (example_row ''complete'' (Some example_date) None)"
    by (simp add: run_defs)
  have w: "latest_post_modified (example_row ''complete'' (Some example_date) None)
             = Some example_date"
    by (simp add: run_defs)
  have n: "example_date \<noteq> []" by (simp add: example_date_def)
  have c: "\<not> search_conflict (search_query (example_row ''complete'' (Some example_date) None))
          (cfg_search example_cfg)"
    by (simp add: run_defs)
  have f: "fetch_page (WordPressClient (cfg_per_page example_cfg)) ?R 1
        (since_params example_date (cfg_search example_cfg)) = Inr []"
    by (simp add: run_defs)
  note inst = update_without_news_is_noop [OF v l w n c, of 1 example_clock example_extract
               False "[]"]
  from inst f obtain s' where
    r: "run_scraper 1 example_clock example_extract ?R example_cfg True False ?M []
          = Some (Returned True, s')"
    and k: "meta s' = ?M" "posts_db s' = []"
      "trace s' = [NetRequest probe_query, MetaCreateTable, DbCreateTable,
               NetRequest (page_query (WordPressClient (cfg_per_page example_cfg)) 1
                             (since_params example_date (cfg_search example_cfg)))]"
    by auto
  from update_without_news_is_noop [OF v l w n c, of 1 example_clock example_extract
               False "[]" "Returned True" s'] r
  have "list_all (since_only example_date) (trace s')" "\<not> list_ex is_checkpoint (trace s')"
    by simp_all
  with v l w n c f r k show ?thesis by simp
qed












lemma standard_scrape_first_request:
  fixes s :: "'r scrape_state"
  assumes run: "standard_scrape fuel clock ex c remote cfg s = Some (res, s')"
    and cnt: "get_total_posts_count remote = Inr ()"
    and lim: "within_limit (cfg_max_pages cfg) 0"
  shows "\<exists>evs. trace s' = trace s @ NetRequest probe_query
                  # NetRequest (page_query c (cfg_start_page cfg) (search_params (cfg_search cfg)))
                  # evs"
proof -
  let ?s2 = "s\<lparr>trace := trace s @ [NetRequest probe_query],
               current_page := cfg_start_page cfg\<rparr>"
  let ?loop = "fetch_all fuel c remote (cfg_max_pages cfg) (search_params (cfg_search cfg))
                 (page_body clock (cfg_wordpress_url cfg)) (cfg_start_page cfg) 0 ?s2"
  from run cnt obtain r s3 where loop: "?loop = Some (r, s3)"
    by (cases ?loop) (auto simp: standard_scrape_def Let_def)
  have "\<exists>evs. trace s3 = trace ?s2
            @ NetRequest (page_query c (cfg_start_page cfg) (search_params (cfg_search cfg))) # evs"
  proof (rule fetch_all_first_request [OF loop lim])
    fix x :: "'r scrape_state" and posts
    show "\<exists>evs. trace (page_body clock (cfg_wordpress_url cfg) posts x) = trace x @ evs"
      by (simp add: page_body_fields)
  qed
  then obtain evs where t3: "trace s3 = trace s @ NetRequest probe_query
            # NetRequest (page_query c (cfg_start_page cfg) (search_params (cfg_search cfg))) # evs"
    by auto
  have fin: "s' = s3 \<or> process_and_store clock ex cfg s3 = (res, s')"
    using run cnt loop by (cases r) (auto simp: standard_scrape_def Let_def)
  then have "\<exists>post. trace s' = trace s3 @ post"
  proof
    assume "s' = s3"
    then show ?thesis by simp
  next
    assume "process_and_store clock ex cfg s3 = (res, s')"
    from process_and_store_result [OF this] show ?thesis by blast
  qed
  then obtain post where "trace s' = trace s3 @ post" by blast
  with t3 show ?thesis by simp
qed

lemma run_scraper_resume_without_watermark:
  assumes v: "validate_endpoint remote = Inr True"
    and latest: "get_latest_metadata tbl (cfg_wordpress_url cfg) = Some r"
    and nowm: "\<not> truthy (latest_post_modified r)"
    and pages: "next_page_to_fetch r \<noteq> 0" "last_page_scraped r \<noteq> 0"
    and nc: "\<not> search_conflict (search_query r) (cfg_search cfg)"
  shows "run_scraper fuel clock ex remote cfg update True tbl db0
           = standard_scrape fuel clock ex (WordPressClient (cfg_per_page cfg)) remote
               (cfg\<lparr>cfg_start_page := next_page_to_fetch r\<rparr>)
               \<lparr>meta = tbl, posts_db = db0, all_posts_raw = [],
                current_page = cfg_start_page cfg, last_page_completed = 0,
                trace = [NetRequest probe_query, MetaCreateTable, DbCreateTable]\<rparr>"
proof -
  note sv = stored_values [OF latest]
  have rb: "resume_block cfg True tbl = Some (cfg\<lparr>cfg_start_page := next_page_to_fetch r\<rparr>)"
    using nc pages by (simp add: resume_block_def Let_def sv truthy_int_def)
  have ub: "update_block (cfg\<lparr>cfg_start_page := next_page_to_fetch r\<rparr>) update tbl = NoUpdate"
    using nc nowm
    by (cases "latest_post_modified r") (simp_all add: update_block_def Let_def sv truthy_def)
  show ?thesis
    using v rb ub by (simp add: run_scraper_def Let_def)
qed

text \<open>
  C3 (as amended). Let the endpoint validate and let both flags be requested for a
  source whose stored search query does not conflict with the requested one.
  (1) When the authoritative row holds a watermark \<open>t\<close> (not empty), the run is an
  update run: its first page request is for page 1 with \<^verbatim>\<open>modified_after\<close> equal to
  \<open>t\<close>, every page request carries that date, and no page checkpoint is written; the
  stored next page plays no part.
  (2) When the row holds no watermark and both stored page numbers are non-zero, resume
  decides: the run is the run that the resume flag alone gives, and its first page request
  is for the stored next page, without \<^verbatim>\<open>modified_after\<close>.
\<close>

theorem update_overrides_resume:
  assumes v: "validate_endpoint remote = Inr True"
  shows "(get_latest_metadata meta_a (cfg_wordpress_url cfg) = Some row_a
          \<and> latest_post_modified row_a = Some t \<and> t \<noteq> []
          \<and> \<not> search_conflict (search_query row_a) (cfg_search cfg)
          \<and> run_scraper fuel_a clock ex remote cfg True True meta_a db_a = Some (res_a, end_a)
          \<longrightarrow> list_all (since_only t) (trace end_a)
              \<and> \<not> list_ex is_checkpoint (trace end_a)
              \<and> (\<exists>evs. trace end_a =
                     [NetRequest probe_query, MetaCreateTable, DbCreateTable,
                      NetRequest (page_query (WordPressClient (cfg_per_page cfg)) 1
                                    (since_params t (cfg_search cfg)))] @ evs))
       \<and> (get_latest_metadata meta_b (cfg_wordpress_url cfg) = Some row_b
          \<and> \<not> truthy (latest_post_modified row_b)
          \<and> next_page_to_fetch row_b \<noteq> 0 \<and> last_page_scraped row_b \<noteq> 0
          \<and> \<not> search_conflict (search_query row_b) (cfg_search cfg)
          \<and> within_limit (cfg_max_pages cfg) 0
          \<and> run_scraper fuel_b clock ex remote cfg True True meta_b db_b = Some (res_b, end_b)
          \<longrightarrow> run_scraper fuel_b clock ex remote cfg False True meta_b db_b = Some (res_b, end_b)
              \<and> (\<exists>evs. trace end_b =
                     [NetRequest probe_query, MetaCreateTable, DbCreateTable,
                      NetRequest probe_query,
                      NetRequest (page_query (WordPressClient (cfg_per_page cfg))
                                    (next_page_to_fetch row_b)
                                    (search_params (cfg_search cfg)))] @ evs))"
proof (rule conjI; rule impI)
  assume a: "get_latest_metadata meta_a (cfg_wordpress_url cfg) = Some row_a
          \<and> latest_post_modified row_a = Some t \<and> t \<noteq> []
          \<and> \<not> search_conflict (search_query row_a) (cfg_search cfg)
          \<and> run_scraper fuel_a clock ex remote cfg True True meta_a db_a = Some (res_a, end_a)"
  then have latest: "get_latest_metadata meta_a (cfg_wordpress_url cfg) = Some row_a"
    and wm: "latest_post_modified row_a = Some t" "t \<noteq> []"
    and nc: "\<not> search_conflict (search_query row_a) (cfg_search cfg)"
    and run: "run_scraper fuel_a clock ex remote cfg True True meta_a db_a = Some (res_a, end_a)"
    by simp_all
  from run_scraper_update_mode [OF v latest wm nc, of fuel_a clock ex True db_a] run
  obtain cfg1 where s: "cfg_search cfg1 = cfg_search cfg"
    and u: "update_scrape fuel_a clock ex (WordPressClient (cfg_per_page cfg)) remote cfg1 t
                   \<lparr>meta = meta_a, posts_db = db_a, all_posts_raw = [],
                    current_page = cfg_start_page cfg, last_page_completed = 0,
                    trace = [NetRequest probe_query, MetaCreateTable, DbCreateTable]\<rparr>
                 = Some (res_a, end_a)"
    by auto
  have i1: "list_all (since_only t) [NetRequest probe_query, MetaCreateTable, DbCreateTable]"
    by (simp add: probe_query_def)
  have i2: "\<not> list_ex is_checkpoint [NetRequest probe_query, MetaCreateTable, DbCreateTable]"
    by simp
  from update_scrape_requests(1) [OF u] i1 i2
  have c1: "list_all (since_only t) (trace end_a)" by simp
  from update_scrape_requests(2) [OF u] i1 i2
  have c2: "\<not> list_ex is_checkpoint (trace end_a)" by simp
  from update_scrape_requests(3) [OF u] i1 i2 s
  have c3: "\<exists>evs. trace end_a =
                     [NetRequest probe_query, MetaCreateTable, DbCreateTable,
                      NetRequest (page_query (WordPressClient (cfg_per_page cfg)) 1
                                    (since_params t (cfg_search cfg)))] @ evs"
    by simp
  from c1 c2 c3
  show "list_all (since_only t) (trace end_a)
              \<and> \<not> list_ex is_checkpoint (trace end_a)
              \<and> (\<exists>evs. trace end_a =
                     [NetRequest probe_query, MetaCreateTable, DbCreateTable,
                      NetRequest (page_query (WordPressClient (cfg_per_page cfg)) 1
                                    (since_params t (cfg_search cfg)))] @ evs)"
    by blast
next
  assume b: "get_latest_metadata meta_b (cfg_wordpress_url cfg) = Some row_b
          \<and> \<not> truthy (latest_post_modified row_b)
          \<and> next_page_to_fetch row_b \<noteq> 0 \<and> last_page_scraped row_b \<noteq> 0
          \<and> \<not> search_conflict (search_query row_b) (cfg_search cfg)
          \<and> within_limit (cfg_max_pages cfg) 0
          \<and> run_scraper fuel_b clock ex remote cfg True True meta_b db_b = Some (res_b, end_b)"
  then have latest: "get_latest_metadata meta_b (cfg_wordpress_url cfg) = Some row_b"
    and nowm: "\<not> truthy (latest_post_modified row_b)"
    and pages: "next_page_to_fetch row_b \<noteq> 0" "last_page_scraped row_b \<noteq> 0"
    and nc: "\<not> search_conflict (search_query row_b) (cfg_search cfg)"
    and lim: "within_limit (cfg_max_pages cfg) 0"
    and run: "run_scraper fuel_b clock ex remote cfg True True meta_b db_b = Some (res_b, end_b)"
    by simp_all
  let ?cfg1 = "cfg\<lparr>cfg_start_page := next_page_to_fetch row_b\<rparr>"
  let ?s1 = "\<lparr>meta = meta_b, posts_db = db_b, all_posts_raw = [],
                current_page = cfg_start_page cfg, last_page_completed = 0,
                trace = [NetRequest probe_query, MetaCreateTable, DbCreateTable]\<rparr>
             :: 'a scrape_state"
  note eqT = run_scraper_resume_without_watermark
               [OF v latest nowm pages nc, of fuel_b clock ex True db_b]
  note eqF = run_scraper_resume_without_watermark
               [OF v latest nowm pages nc, of fuel_b clock ex False db_b]
  from eqT eqF run
  have same: "run_scraper fuel_b clock ex remote cfg False True meta_b db_b = Some (res_b, end_b)"
    by simp
  from eqT run
  have st: "standard_scrape fuel_b clock ex (WordPressClient (cfg_per_page cfg)) remote ?cfg1 ?s1
              = Some (res_b, end_b)"
    by simp
  have cnt: "get_total_posts_count remote = Inr ()" using v by (rule validated_count)
  have lim1: "within_limit (cfg_max_pages ?cfg1) 0" using lim by simp
  from standard_scrape_first_request [OF st cnt lim1]
  have "\<exists>evs. trace end_b =
                     [NetRequest probe_query, MetaCreateTable, DbCreateTable,
                      NetRequest probe_query,
                      NetRequest (page_query (WordPressClient (cfg_per_page cfg))
                                    (next_page_to_fetch row_b)
                                    (search_params (cfg_search cfg)))] @ evs"
    by simp
  with same
  show "run_scraper fuel_b clock ex remote cfg False True meta_b db_b = Some (res_b, end_b)
              \<and> (\<exists>evs. trace end_b =
                     [NetRequest probe_query, MetaCreateTable, DbCreateTable,
                      NetRequest probe_query,
                      NetRequest (page_query (WordPressClient (cfg_per_page cfg))
                                    (next_page_to_fetch row_b)
                                    (search_params (cfg_search cfg)))] @ evs)"
    by blast
qed

text \<open>
  C3 as stated fails. The stored session was checkpointed through page 3 (next page 4) and
  holds a watermark; the remote has records on page 4. With both flags the run asks for
  page 1 of what was modified after the watermark, finds nothing, and returns: page 4 is
  never requested.
\<close>

theorem resume_does_not_win_counterexample:
  "map_option (\<lambda>(res, s). (res, trace s))
     (run_scraper 3 example_clock example_extract (serving 4 (Response 400 InvalidJson))
        example_cfg True True [example_row ''in_progress'' (Some example_date) None] [])
   = Some (Returned True,
       [NetRequest probe_query, MetaCreateTable, DbCreateTable,
        NetRequest \<lparr>q_per_page = 100, q_page = Some 1, q_search = None,
                    q_modified_after = Some example_date\<rparr>])"
  by (simp add: run_defs eval_nat_numeral)

text \<open>
  The theorem of C3 at two stored sessions, both checkpointed through page 3: one with a
  watermark, one without.
\<close>

theorem update_overrides_resume_witness:
  "validate_endpoint (serving 4 (Response 400 InvalidJson)) = Inr True
   \<and> get_latest_metadata [example_row ''in_progress'' (Some example_date) None]
        (cfg_wordpress_url example_cfg)
       = Some (example_row ''in_progress'' (Some example_date) None)
   \<and> latest_post_modified (example_row ''in_progress'' (Some example_date) None)
       = Some example_date
   \<and> example_date \<noteq> []
   \<and> \<not> search_conflict (search_query (example_row ''in_progress'' (Some example_date) None))
          (cfg_search example_cfg)
   \<and> (\<exists>res s. run_scraper 3 example_clock example_extract
                  (serving 4 (Response 400 InvalidJson)) example_cfg True True
                  [example_row ''in_progress'' (Some example_date) None] [] = Some (res, s)
          \<and> list_all (since_only example_date) (trace s)
          \<and> \<not> list_ex is_checkpoint (trace s)
          \<and> (\<exists>evs. trace s =
                 [NetRequest probe_query, MetaCreateTable, DbCreateTable,
                  NetRequest (page_query (WordPressClient (cfg_per_page example_cfg)) 1
                                (since_params example_date (cfg_search example_cfg)))] @ evs))
   \<and> get_latest_metadata [example_row ''in_progress'' None None]
        (cfg_wordpress_url example_cfg)
       = Some (example_row ''in_progress'' None None)
   \<and> \<not> truthy (latest_post_modified (example_row ''in_progress'' None None))
   \<and> next_page_to_fetch (example_row ''in_progress'' None None) \<noteq> 0
   \<and> last_page_scraped (example_row ''in_progress'' None None) \<noteq> 0
   \<and> \<not> search_conflict (search_query (example_row ''in_progress'' None None))
          (cfg_search example_cfg)
   \<and> within_limit (cfg_max_pages example_cfg) 0
   \<and> (\<exists>res s. run_scraper 3 example_clock example_extract
                  (serving 4 (Response 400 InvalidJson)) example_cfg True True
                  [example_row ''in_progress'' None None] [] = Some (res, s)
          \<and> run_scraper 3 example_clock example_extract
                  (serving 4 (Response 400 InvalidJson)) example_cfg False True
                  [example_row ''in_progress'' None None] [] = Some (res, s)
          \<and> (\<exists>evs. trace s =
                 [NetRequest probe_query, MetaCreateTable, DbCreateTable,
                  NetRequest probe_query,
                  NetRequest (page_query (WordPressClient (cfg_per_page example_cfg))
                                (next_page_to_fetch (example_row ''in_progress'' None None))
                                (search_params (cfg_search example_cfg)))] @ evs))"
proof -
  let ?R = "serving 4 (Response 400 InvalidJson)"
  let ?ra = "example_row ''in_progress'' (Some example_date) None"
  let ?rb = "example_row ''in_progress'' None None"
  have v: "validate_endpoint ?R = Inr True" by (simp add: run_defs)
  have a1: "get_latest_metadata [?ra] (cfg_wordpress_url example_cfg) = Some ?ra"
    by (simp add: run_defs)
  have a2: "latest_post_modified ?ra = Some example_date" by (simp add: run_defs)
  have a3: "example_date \<noteq> []" by (simp add: example_date_def)
  have a4: "\<not> search_conflict (search_query ?ra) (cfg_search example_cfg)"
    by (simp add: run_defs)
  have "run_scraper 3 example_clock example_extract ?R example_cfg True True [?ra] [] \<noteq> None"
    by (simp add: run_defs eval_nat_numeral)
  then obtain res_a end_a where
    a5: "run_scraper 3 example_clock example_extract ?R example_cfg True True [?ra] []
           = Some (res_a, end_a)"
    by (cases "run_scraper 3 example_clock example_extract ?R example_cfg True True [?ra] []")
       auto
  have b1: "get_latest_metadata [?rb] (cfg_wordpress_url example_cfg) = Some ?rb"
    by (simp add: run_defs)
  have b2: "\<not> truthy (latest_post_modified ?rb)" by (simp add: run_defs)
  have b3: "next_page_to_fetch ?rb \<noteq> 0" by (simp add: run_defs)
  have b4: "last_page_scraped ?rb \<noteq> 0" by (simp add: run_defs)
  have b5: "\<not> search_conflict (search_query ?rb) (cfg_search example_cfg)"
    by (simp add: run_defs)
  have b6: "within_limit (cfg_max_pages example_cfg) 0" by (simp add: run_defs)
  have "run_scraper 3 example_clock example_extract ?R example_cfg True True [?rb] [] \<noteq> None"
    by (simp add: run_defs eval_nat_numeral)
  then obtain res_b end_b where
    b7: "run_scraper 3 example_clock example_extract ?R example_cfg True True [?rb] []
           = Some (res_b, end_b)"
    by (cases "run_scraper 3 example_clock example_extract ?R example_cfg True True [?rb] []")
       auto
  note inst = update_overrides_resume [OF v,
      where cfg = example_cfg and clock = example_clock and ex = example_extract
        and meta_a = "[?ra]" and row_a = ?ra and t = example_date and fuel_a = 3
        and db_a = "[]" and res_a = res_a and end_a = end_a
        and meta_b = "[?rb]" and row_b = ?rb and fuel_b = 3
        and db_b = "[]" and res_b = res_b and end_b = end_b]
  from inst a1 a2 a3 a4 a5
  have ca: "list_all (since_only example_date) (trace end_a)
          \<and> \<not> list_ex is_checkpoint (trace end_a)
          \<and> (\<exists>evs. trace end_a =
                 [NetRequest probe_query, MetaCreateTable, DbCreateTable,
                  NetRequest (page_query (WordPressClient (cfg_per_page example_cfg)) 1
                                (since_params example_date (cfg_search example_cfg)))] @ evs)"
    by blast
  from inst b1 b2 b3 b4 b5 b6 b7
  have cb: "run_scraper 3 example_clock example_extract ?R example_cfg False True [?rb] []
              = Some (res_b, end_b)
          \<and> (\<exists>evs. trace end_b =
                 [NetRequest probe_query, MetaCreateTable, DbCreateTable,
                  NetRequest probe_query,
                  NetRequest (page_query (WordPressClient (cfg_per_page example_cfg))
                                (next_page_to_fetch ?rb)
                                (search_params (cfg_search example_cfg)))] @ evs)"
    by blast
  from v a1 a2 a3 a4 a5 ca b1 b2 b3 b4 b5 b6 b7 cb show ?thesis by blast
qed

end
